theory Spec2Isabelle
  imports Main "HOL-Library.Word" "HOL-Library.Sublist"
begin

unbundle bit_operations_syntax

section \<open>Control codes of the device package\<close>

text \<open>
  A control code is a \<open>uint32\<close>: bits 31-16 hold the device type, bits 15-14 the
  required access, bits 13-2 the function and bits 1-0 the transfer method.
  Go's \<open>>>\<close> and \<open><<\<close> on \<open>uint32\<close> are \<open>drop_bit\<close> and \<open>push_bit\<close> on
  \<open>32 word\<close>, \<open>&\<close> and \<open>|\<close> are \<open>AND\<close> and \<open>OR\<close>.
\<close>

subsection \<open>Constants\<close>

text \<open>
  Modelled from the spec: the constants of \<open>constants.go\<close> (\<open>METHOD_*\<close>,
  \<open>FILE_*_ACCESS\<close>, \<open>FILE_DEVICE_*\<close>, \<open>IOCTL_*\<close>) are not among the sources.
  Their values are the ones fixed by the operating system's contract; the comments and
  tests of the package state the ones used below (methods 0-3, access 0-3,
  \<open>FILE_DEVICE_DISK = 0x07\<close>, \<open>FILE_DEVICE_FILE_SYSTEM = 0x09\<close>,
  \<open>FILE_DEVICE_NETWORK = 0x12\<close>, \<open>FILE_DEVICE_MASS_STORAGE = 0x2D\<close>, known device
  types \<open>0x01-0x3B\<close>, \<open>IOCTL_DISK_GET_DRIVE_GEOMETRY = 0x00070000\<close>).
\<close>

abbreviation (input) METHOD_BUFFERED :: "32 word" where "METHOD_BUFFERED \<equiv> 0"
abbreviation (input) METHOD_IN_DIRECT :: "32 word" where "METHOD_IN_DIRECT \<equiv> 1"
abbreviation (input) METHOD_OUT_DIRECT :: "32 word" where "METHOD_OUT_DIRECT \<equiv> 2"
abbreviation (input) METHOD_NEITHER :: "32 word" where "METHOD_NEITHER \<equiv> 3"

abbreviation (input) FILE_ANY_ACCESS :: "32 word" where "FILE_ANY_ACCESS \<equiv> 0"
abbreviation (input) FILE_READ_ACCESS :: "32 word" where "FILE_READ_ACCESS \<equiv> 1"
abbreviation (input) FILE_WRITE_ACCESS :: "32 word" where "FILE_WRITE_ACCESS \<equiv> 2"

abbreviation (input) FILE_DEVICE_BEEP :: "32 word" where "FILE_DEVICE_BEEP \<equiv> 0x01"
abbreviation (input) FILE_DEVICE_CD_ROM :: "32 word" where "FILE_DEVICE_CD_ROM \<equiv> 0x02"
abbreviation (input) FILE_DEVICE_CD_ROM_FILE_SYSTEM :: "32 word" where "FILE_DEVICE_CD_ROM_FILE_SYSTEM \<equiv> 0x03"
abbreviation (input) FILE_DEVICE_CONTROLLER :: "32 word" where "FILE_DEVICE_CONTROLLER \<equiv> 0x04"
abbreviation (input) FILE_DEVICE_DATALINK :: "32 word" where "FILE_DEVICE_DATALINK \<equiv> 0x05"
abbreviation (input) FILE_DEVICE_DFS :: "32 word" where "FILE_DEVICE_DFS \<equiv> 0x06"
abbreviation (input) FILE_DEVICE_DISK :: "32 word" where "FILE_DEVICE_DISK \<equiv> 0x07"
abbreviation (input) FILE_DEVICE_DISK_FILE_SYSTEM :: "32 word" where "FILE_DEVICE_DISK_FILE_SYSTEM \<equiv> 0x08"
abbreviation (input) FILE_DEVICE_FILE_SYSTEM :: "32 word" where "FILE_DEVICE_FILE_SYSTEM \<equiv> 0x09"
abbreviation (input) FILE_DEVICE_INPORT_PORT :: "32 word" where "FILE_DEVICE_INPORT_PORT \<equiv> 0x0A"
abbreviation (input) FILE_DEVICE_KEYBOARD :: "32 word" where "FILE_DEVICE_KEYBOARD \<equiv> 0x0B"
abbreviation (input) FILE_DEVICE_MAILSLOT :: "32 word" where "FILE_DEVICE_MAILSLOT \<equiv> 0x0C"
abbreviation (input) FILE_DEVICE_MIDI_IN :: "32 word" where "FILE_DEVICE_MIDI_IN \<equiv> 0x0D"
abbreviation (input) FILE_DEVICE_MIDI_OUT :: "32 word" where "FILE_DEVICE_MIDI_OUT \<equiv> 0x0E"
abbreviation (input) FILE_DEVICE_MOUSE :: "32 word" where "FILE_DEVICE_MOUSE \<equiv> 0x0F"
abbreviation (input) FILE_DEVICE_MULTI_UNC_PROVIDER :: "32 word" where "FILE_DEVICE_MULTI_UNC_PROVIDER \<equiv> 0x10"
abbreviation (input) FILE_DEVICE_NAMED_PIPE :: "32 word" where "FILE_DEVICE_NAMED_PIPE \<equiv> 0x11"
abbreviation (input) FILE_DEVICE_NETWORK :: "32 word" where "FILE_DEVICE_NETWORK \<equiv> 0x12"
abbreviation (input) FILE_DEVICE_NETWORK_BROWSER :: "32 word" where "FILE_DEVICE_NETWORK_BROWSER \<equiv> 0x13"
abbreviation (input) FILE_DEVICE_NETWORK_FILE_SYSTEM :: "32 word" where "FILE_DEVICE_NETWORK_FILE_SYSTEM \<equiv> 0x14"
abbreviation (input) FILE_DEVICE_NULL :: "32 word" where "FILE_DEVICE_NULL \<equiv> 0x15"
abbreviation (input) FILE_DEVICE_PARALLEL_PORT :: "32 word" where "FILE_DEVICE_PARALLEL_PORT \<equiv> 0x16"
abbreviation (input) FILE_DEVICE_PHYSICAL_NETCARD :: "32 word" where "FILE_DEVICE_PHYSICAL_NETCARD \<equiv> 0x17"
abbreviation (input) FILE_DEVICE_PRINTER :: "32 word" where "FILE_DEVICE_PRINTER \<equiv> 0x18"
abbreviation (input) FILE_DEVICE_SCANNER :: "32 word" where "FILE_DEVICE_SCANNER \<equiv> 0x19"
abbreviation (input) FILE_DEVICE_SERIAL_MOUSE_PORT :: "32 word" where "FILE_DEVICE_SERIAL_MOUSE_PORT \<equiv> 0x1A"
abbreviation (input) FILE_DEVICE_SERIAL_PORT :: "32 word" where "FILE_DEVICE_SERIAL_PORT \<equiv> 0x1B"
abbreviation (input) FILE_DEVICE_SCREEN :: "32 word" where "FILE_DEVICE_SCREEN \<equiv> 0x1C"
abbreviation (input) FILE_DEVICE_SOUND :: "32 word" where "FILE_DEVICE_SOUND \<equiv> 0x1D"
abbreviation (input) FILE_DEVICE_STREAMS :: "32 word" where "FILE_DEVICE_STREAMS \<equiv> 0x1E"
abbreviation (input) FILE_DEVICE_TAPE :: "32 word" where "FILE_DEVICE_TAPE \<equiv> 0x1F"
abbreviation (input) FILE_DEVICE_TAPE_FILE_SYSTEM :: "32 word" where "FILE_DEVICE_TAPE_FILE_SYSTEM \<equiv> 0x20"
abbreviation (input) FILE_DEVICE_TRANSPORT :: "32 word" where "FILE_DEVICE_TRANSPORT \<equiv> 0x21"
abbreviation (input) FILE_DEVICE_UNKNOWN :: "32 word" where "FILE_DEVICE_UNKNOWN \<equiv> 0x22"
abbreviation (input) FILE_DEVICE_VIDEO :: "32 word" where "FILE_DEVICE_VIDEO \<equiv> 0x23"
abbreviation (input) FILE_DEVICE_VIRTUAL_DISK :: "32 word" where "FILE_DEVICE_VIRTUAL_DISK \<equiv> 0x24"
abbreviation (input) FILE_DEVICE_WAVE_IN :: "32 word" where "FILE_DEVICE_WAVE_IN \<equiv> 0x25"
abbreviation (input) FILE_DEVICE_WAVE_OUT :: "32 word" where "FILE_DEVICE_WAVE_OUT \<equiv> 0x26"
abbreviation (input) FILE_DEVICE_8042_PORT :: "32 word" where "FILE_DEVICE_8042_PORT \<equiv> 0x27"
abbreviation (input) FILE_DEVICE_NETWORK_REDIRECTOR :: "32 word" where "FILE_DEVICE_NETWORK_REDIRECTOR \<equiv> 0x28"
abbreviation (input) FILE_DEVICE_BATTERY :: "32 word" where "FILE_DEVICE_BATTERY \<equiv> 0x29"
abbreviation (input) FILE_DEVICE_BUS_EXTENDER :: "32 word" where "FILE_DEVICE_BUS_EXTENDER \<equiv> 0x2A"
abbreviation (input) FILE_DEVICE_MODEM :: "32 word" where "FILE_DEVICE_MODEM \<equiv> 0x2B"
abbreviation (input) FILE_DEVICE_VDM :: "32 word" where "FILE_DEVICE_VDM \<equiv> 0x2C"
abbreviation (input) FILE_DEVICE_MASS_STORAGE :: "32 word" where "FILE_DEVICE_MASS_STORAGE \<equiv> 0x2D"
abbreviation (input) FILE_DEVICE_SMB :: "32 word" where "FILE_DEVICE_SMB \<equiv> 0x2E"
abbreviation (input) FILE_DEVICE_KS :: "32 word" where "FILE_DEVICE_KS \<equiv> 0x2F"
abbreviation (input) FILE_DEVICE_CHANGER :: "32 word" where "FILE_DEVICE_CHANGER \<equiv> 0x30"
abbreviation (input) FILE_DEVICE_SMARTCARD :: "32 word" where "FILE_DEVICE_SMARTCARD \<equiv> 0x31"
abbreviation (input) FILE_DEVICE_ACPI :: "32 word" where "FILE_DEVICE_ACPI \<equiv> 0x32"
abbreviation (input) FILE_DEVICE_DVD :: "32 word" where "FILE_DEVICE_DVD \<equiv> 0x33"
abbreviation (input) FILE_DEVICE_FULLSCREEN_VIDEO :: "32 word" where "FILE_DEVICE_FULLSCREEN_VIDEO \<equiv> 0x34"
abbreviation (input) FILE_DEVICE_DFS_FILE_SYSTEM :: "32 word" where "FILE_DEVICE_DFS_FILE_SYSTEM \<equiv> 0x35"
abbreviation (input) FILE_DEVICE_DFS_VOLUME :: "32 word" where "FILE_DEVICE_DFS_VOLUME \<equiv> 0x36"
abbreviation (input) FILE_DEVICE_SERENUM :: "32 word" where "FILE_DEVICE_SERENUM \<equiv> 0x37"
abbreviation (input) FILE_DEVICE_TERMSRV :: "32 word" where "FILE_DEVICE_TERMSRV \<equiv> 0x38"
abbreviation (input) FILE_DEVICE_KSEC :: "32 word" where "FILE_DEVICE_KSEC \<equiv> 0x39"
abbreviation (input) FILE_DEVICE_FIPS :: "32 word" where "FILE_DEVICE_FIPS \<equiv> 0x3A"
abbreviation (input) FILE_DEVICE_INFINIBAND :: "32 word" where "FILE_DEVICE_INFINIBAND \<equiv> 0x3B"

abbreviation (input) IOCTL_DISK_GET_DRIVE_GEOMETRY :: "32 word" where
  "IOCTL_DISK_GET_DRIVE_GEOMETRY \<equiv> 0x00070000"
abbreviation (input) IOCTL_DISK_GET_PARTITION_INFO :: "32 word" where
  "IOCTL_DISK_GET_PARTITION_INFO \<equiv> 0x00074004"
abbreviation (input) IOCTL_DISK_GET_DRIVE_LAYOUT :: "32 word" where
  "IOCTL_DISK_GET_DRIVE_LAYOUT \<equiv> 0x0007400C"
abbreviation (input) IOCTL_STORAGE_GET_DEVICE_NUMBER :: "32 word" where
  "IOCTL_STORAGE_GET_DEVICE_NUMBER \<equiv> 0x002D1080"
abbreviation (input) IOCTL_STORAGE_QUERY_PROPERTY :: "32 word" where
  "IOCTL_STORAGE_QUERY_PROPERTY \<equiv> 0x002D1400"
abbreviation (input) IOCTL_VOLUME_GET_VOLUME_DISK_EXTENTS :: "32 word" where
  "IOCTL_VOLUME_GET_VOLUME_DISK_EXTENTS \<equiv> 0x00560000"

subsection \<open>Building a control code\<close>

text \<open>
  Modelled from the spec: \<open>CTL_CODE\<close> lives in \<open>constants.go\<close>, which is not among
  the sources. The spec fixes the bit layout (device type in bits 31-16, access in
  15-14, function in 13-2, method in 1-0) and requires the encoder to mask
  out-of-range inputs rather than reject them.
\<close>

definition CTL_CODE :: "32 word \<Rightarrow> 32 word \<Rightarrow> 32 word \<Rightarrow> 32 word \<Rightarrow> 32 word" where
  "CTL_CODE deviceType function method access =
     push_bit 16 (deviceType AND 0xFFFF) OR push_bit 14 (access AND 0x3)
       OR push_bit 2 (function AND 0xFFF) OR (method AND 0x3)"

subsection \<open>Extracting the fields\<close>

definition ExtractDeviceType :: "32 word \<Rightarrow> 32 word" where
  "ExtractDeviceType ioctlCode = drop_bit 16 ioctlCode AND 0xFFFF"

definition ExtractFunction :: "32 word \<Rightarrow> 32 word" where
  "ExtractFunction ioctlCode = drop_bit 2 ioctlCode AND 0xFFF"

definition ExtractMethod :: "32 word \<Rightarrow> 32 word" where
  "ExtractMethod ioctlCode = ioctlCode AND 0x3"

definition ExtractAccess :: "32 word \<Rightarrow> 32 word" where
  "ExtractAccess ioctlCode = drop_bit 14 ioctlCode AND 0x3"

subsection \<open>Lookup tables\<close>

text \<open>
  The Go maps are association lists read with \<open>map_of\<close>; a map literal with two equal
  constant keys does not compile, so the first match is the only one.
\<close>

definition deviceTypeNames :: "(32 word \<times> string) list" where
  "deviceTypeNames =
    [(FILE_DEVICE_BEEP, ''BEEP''),
     (FILE_DEVICE_CD_ROM, ''CD_ROM''),
     (FILE_DEVICE_CD_ROM_FILE_SYSTEM, ''CD_ROM_FILE_SYSTEM''),
     (FILE_DEVICE_CONTROLLER, ''CONTROLLER''),
     (FILE_DEVICE_DATALINK, ''DATALINK''),
     (FILE_DEVICE_DFS, ''DFS''),
     (FILE_DEVICE_DISK, ''DISK''),
     (FILE_DEVICE_DISK_FILE_SYSTEM, ''DISK_FILE_SYSTEM''),
     (FILE_DEVICE_FILE_SYSTEM, ''FILE_SYSTEM''),
     (FILE_DEVICE_INPORT_PORT, ''INPORT_PORT''),
     (FILE_DEVICE_KEYBOARD, ''KEYBOARD''),
     (FILE_DEVICE_MAILSLOT, ''MAILSLOT''),
     (FILE_DEVICE_MIDI_IN, ''MIDI_IN''),
     (FILE_DEVICE_MIDI_OUT, ''MIDI_OUT''),
     (FILE_DEVICE_MOUSE, ''MOUSE''),
     (FILE_DEVICE_MULTI_UNC_PROVIDER, ''MULTI_UNC_PROVIDER''),
     (FILE_DEVICE_NAMED_PIPE, ''NAMED_PIPE''),
     (FILE_DEVICE_NETWORK, ''NETWORK''),
     (FILE_DEVICE_NETWORK_BROWSER, ''NETWORK_BROWSER''),
     (FILE_DEVICE_NETWORK_FILE_SYSTEM, ''NETWORK_FILE_SYSTEM''),
     (FILE_DEVICE_NULL, ''NULL''),
     (FILE_DEVICE_PARALLEL_PORT, ''PARALLEL_PORT''),
     (FILE_DEVICE_PHYSICAL_NETCARD, ''PHYSICAL_NETCARD''),
     (FILE_DEVICE_PRINTER, ''PRINTER''),
     (FILE_DEVICE_SCANNER, ''SCANNER''),
     (FILE_DEVICE_SERIAL_MOUSE_PORT, ''SERIAL_MOUSE_PORT''),
     (FILE_DEVICE_SERIAL_PORT, ''SERIAL_PORT''),
     (FILE_DEVICE_SCREEN, ''SCREEN''),
     (FILE_DEVICE_SOUND, ''SOUND''),
     (FILE_DEVICE_STREAMS, ''STREAMS''),
     (FILE_DEVICE_TAPE, ''TAPE''),
     (FILE_DEVICE_TAPE_FILE_SYSTEM, ''TAPE_FILE_SYSTEM''),
     (FILE_DEVICE_TRANSPORT, ''TRANSPORT''),
     (FILE_DEVICE_UNKNOWN, ''UNKNOWN''),
     (FILE_DEVICE_VIDEO, ''VIDEO''),
     (FILE_DEVICE_VIRTUAL_DISK, ''VIRTUAL_DISK''),
     (FILE_DEVICE_WAVE_IN, ''WAVE_IN''),
     (FILE_DEVICE_WAVE_OUT, ''WAVE_OUT''),
     (FILE_DEVICE_8042_PORT, ''8042_PORT''),
     (FILE_DEVICE_NETWORK_REDIRECTOR, ''NETWORK_REDIRECTOR''),
     (FILE_DEVICE_BATTERY, ''BATTERY''),
     (FILE_DEVICE_BUS_EXTENDER, ''BUS_EXTENDER''),
     (FILE_DEVICE_MODEM, ''MODEM''),
     (FILE_DEVICE_VDM, ''VDM''),
     (FILE_DEVICE_MASS_STORAGE, ''MASS_STORAGE''),
     (FILE_DEVICE_SMB, ''SMB''),
     (FILE_DEVICE_KS, ''KS''),
     (FILE_DEVICE_CHANGER, ''CHANGER''),
     (FILE_DEVICE_SMARTCARD, ''SMARTCARD''),
     (FILE_DEVICE_ACPI, ''ACPI''),
     (FILE_DEVICE_DVD, ''DVD''),
     (FILE_DEVICE_FULLSCREEN_VIDEO, ''FULLSCREEN_VIDEO''),
     (FILE_DEVICE_DFS_FILE_SYSTEM, ''DFS_FILE_SYSTEM''),
     (FILE_DEVICE_DFS_VOLUME, ''DFS_VOLUME''),
     (FILE_DEVICE_SERENUM, ''SERENUM''),
     (FILE_DEVICE_TERMSRV, ''TERMSRV''),
     (FILE_DEVICE_KSEC, ''KSEC''),
     (FILE_DEVICE_FIPS, ''FIPS''),
     (FILE_DEVICE_INFINIBAND, ''INFINIBAND'')]"

definition methodNames :: "(32 word \<times> string) list" where
  "methodNames =
    [(METHOD_BUFFERED, ''BUFFERED''),
     (METHOD_IN_DIRECT, ''IN_DIRECT''),
     (METHOD_OUT_DIRECT, ''OUT_DIRECT''),
     (METHOD_NEITHER, ''NEITHER'')]"

definition accessNames :: "(32 word \<times> string) list" where
  "accessNames =
    [(FILE_ANY_ACCESS, ''ANY''),
     (FILE_READ_ACCESS, ''READ''),
     (FILE_WRITE_ACCESS, ''WRITE''),
     (3, ''READ_WRITE'')]"

definition knownIOCTLs :: "(32 word \<times> string) list" where
  "knownIOCTLs =
    [(IOCTL_DISK_GET_DRIVE_GEOMETRY, ''IOCTL_DISK_GET_DRIVE_GEOMETRY''),
     (IOCTL_DISK_GET_PARTITION_INFO, ''IOCTL_DISK_GET_PARTITION_INFO''),
     (IOCTL_DISK_GET_DRIVE_LAYOUT, ''IOCTL_DISK_GET_DRIVE_LAYOUT''),
     (IOCTL_STORAGE_GET_DEVICE_NUMBER, ''IOCTL_STORAGE_GET_DEVICE_NUMBER''),
     (IOCTL_STORAGE_QUERY_PROPERTY, ''IOCTL_STORAGE_QUERY_PROPERTY''),
     (IOCTL_VOLUME_GET_VOLUME_DISK_EXTENTS, ''IOCTL_VOLUME_GET_VOLUME_DISK_EXTENTS'')]"

subsection \<open>Name lookup\<close>

definition GetDeviceTypeName :: "32 word \<Rightarrow> string" where
  "GetDeviceTypeName deviceType =
     (case map_of deviceTypeNames deviceType of
        Some name \<Rightarrow> name
      | None \<Rightarrow> if deviceType \<ge> 0x8000 then ''CUSTOM'' else ''UNKNOWN'')"

definition GetMethodName :: "32 word \<Rightarrow> string" where
  "GetMethodName method =
     (case map_of methodNames method of Some name \<Rightarrow> name | None \<Rightarrow> ''INVALID'')"

definition GetAccessName :: "32 word \<Rightarrow> string" where
  "GetAccessName access =
     (case map_of accessNames access of Some name \<Rightarrow> name | None \<Rightarrow> ''INVALID'')"

text \<open>Go returns the zero string and \<open>false\<close> for a missing key.\<close>

definition LookupKnownIOCTL :: "32 word \<Rightarrow> string \<times> bool" where
  "LookupKnownIOCTL ioctlCode =
     (case map_of knownIOCTLs ioctlCode of Some name \<Rightarrow> (name, True) | None \<Rightarrow> ('''', False))"

subsection \<open>The decoder\<close>

record IOCTLComponents =
  IOCTLCode :: "32 word"
  DeviceType :: "32 word"
  DeviceTypeName :: string
  Function :: "32 word"
  Method :: "32 word"
  MethodName :: string
  Access :: "32 word"
  AccessName :: string
  KnownName :: string

definition DecodeIOCTL :: "32 word \<Rightarrow> IOCTLComponents" where
  "DecodeIOCTL ioctlCode =
     (let deviceType = ExtractDeviceType ioctlCode;
          function = ExtractFunction ioctlCode;
          method = ExtractMethod ioctlCode;
          access = ExtractAccess ioctlCode;
          components = \<lparr>IOCTLCode = ioctlCode,
                        DeviceType = deviceType,
                        DeviceTypeName = GetDeviceTypeName deviceType,
                        Function = function,
                        Method = method,
                        MethodName = GetMethodName method,
                        Access = access,
                        AccessName = GetAccessName access,
                        KnownName = ''''\<rparr>
      in case LookupKnownIOCTL ioctlCode of
           (name, True) \<Rightarrow> components\<lparr>KnownName := name\<rparr>
         | (name, False) \<Rightarrow> components)"

subsection \<open>Formatting\<close>

text \<open>
  \<open>fmt.Sprintf\<close> with the verb \<open>%X\<close> prints an unsigned integer in upper-case
  hexadecimal without leading zeros (\<open>0\<close> for zero); \<open>%0wX\<close> pads with zeros on the
  left to at least \<open>w\<close> characters.
\<close>

definition hex_digit :: "nat \<Rightarrow> char" where
  "hex_digit d = ''0123456789ABCDEF'' ! (d mod 16)"

fun hex_of_nat :: "nat \<Rightarrow> string" where
  "hex_of_nat n = (if n < 16 then [hex_digit n] else hex_of_nat (n div 16) @ [hex_digit (n mod 16)])"

declare hex_of_nat.simps [simp del]

definition Sprintf_X :: "32 word \<Rightarrow> string" where
  "Sprintf_X w = hex_of_nat (unat w)"

definition Sprintf_0X :: "nat \<Rightarrow> 32 word \<Rightarrow> string" where
  "Sprintf_0X width w =
     (let s = hex_of_nat (unat w) in replicate (width - length s) (CHR ''0'') @ s)"

definition FormatIOCTL :: "32 word \<Rightarrow> string" where
  "FormatIOCTL ioctlCode =
     (let components = DecodeIOCTL ioctlCode;
          result = '''';
          result = (if KnownName components \<noteq> ''''
                    then result @ KnownName components @ '': '' else result);
          result = result @ DeviceTypeName components;
          result = result @ ''(function:0x'';
          result = result @ Sprintf_X (Function components);
          result = result @ '', method:'';
          result = result @ MethodName components;
          result = result @ '', access:'';
          result = result @ AccessName components;
          result = result @ '')''
      in result)"

definition FormatIOCTLHex :: "32 word \<Rightarrow> string" where
  "FormatIOCTLHex ioctlCode =
     (let components = DecodeIOCTL ioctlCode
      in ''0x'' @ Sprintf_0X 8 (IOCTLCode components)
         @ '' [Device:0x'' @ Sprintf_0X 4 (DeviceType components)
         @ '' Access:0x'' @ Sprintf_X (Access components)
         @ '' Func:0x'' @ Sprintf_0X 3 (Function components)
         @ '' Method:0x'' @ Sprintf_X (Method components)
         @ '']'')"

section \<open>Probing a device\<close>

subsection \<open>Errors and the device-control primitive\<close>

text \<open>
  A Go \<open>error\<close> is an interface value; the type assertion \<open>err.(syscall.Errno)\<close>
  succeeds exactly when the value is an \<open>Errno\<close>. \<open>syscall.Errno\<close> is an unsigned
  integer type and is only compared for equality here, so its values are naturals.
  An absent error (\<open>nil\<close>) is \<open>None\<close>.
\<close>

datatype go_error = Errno nat | OtherError string

text \<open>The error codes the package declares itself.\<close>

abbreviation (input) ERROR_INVALID_FUNCTION :: nat where "ERROR_INVALID_FUNCTION \<equiv> 1"
abbreviation (input) ERROR_INVALID_PARAMETER :: nat where "ERROR_INVALID_PARAMETER \<equiv> 87"
abbreviation (input) ERROR_BAD_LENGTH :: nat where "ERROR_BAD_LENGTH \<equiv> 24"
abbreviation (input) ERROR_INVALID_USER_BUFFER :: nat where "ERROR_INVALID_USER_BUFFER \<equiv> 1784"
abbreviation (input) ERROR_NOT_SUPPORTED :: nat where "ERROR_NOT_SUPPORTED \<equiv> 50"
abbreviation (input) ERROR_CALL_NOT_IMPLEMENTED :: nat where "ERROR_CALL_NOT_IMPLEMENTED \<equiv> 120"

text \<open>The three it takes from Go's \<open>syscall\<close> package, with that package's values.\<close>

abbreviation (input) ERROR_ACCESS_DENIED :: nat where "ERROR_ACCESS_DENIED \<equiv> 5"
abbreviation (input) ERROR_INSUFFICIENT_BUFFER :: nat where "ERROR_INSUFFICIENT_BUFFER \<equiv> 122"
abbreviation (input) ERROR_MORE_DATA :: nat where "ERROR_MORE_DATA \<equiv> 234"

text \<open>
  \<open>DeviceIoControl\<close> wraps a system call: it returns \<open>(true, nil)\<close> when the call
  succeeds and \<open>(false, GetLastError())\<close> otherwise, and stores the number of bytes
  returned. It is a parameter of the model: any function of the handle, the control
  code, the input buffer, the size of the output buffer and the state of the world
  \<open>'s\<close> (the driver may answer differently each time), which returns the success
  flag, the error, the number of bytes returned, and the new state. The call itself is
  taken to return.

  \<open>HANDLE\<close> is a \<open>uintptr\<close>; its width plays no role below.
\<close>

type_synonym HANDLE = "64 word"

type_synonym outcome = "bool \<times> go_error option \<times> 32 word"

type_synonym 's device_control =
  "HANDLE \<Rightarrow> 32 word \<Rightarrow> 8 word list \<Rightarrow> 32 word \<Rightarrow> 's \<Rightarrow> outcome \<times> 's"

subsection \<open>Probing one code\<close>

record IOCTLProbeResult =
  Code :: "32 word"
  Valid :: bool
  ErrorCode :: "go_error option"
  BytesReturned :: "32 word"

definition ProbeIOCTL ::
  "'s device_control \<Rightarrow> HANDLE \<Rightarrow> 32 word \<Rightarrow> 's \<Rightarrow> IOCTLProbeResult \<times> 's" where
  "ProbeIOCTL dioc hDevice ioctlCode s =
     (let inBuf = replicate 16 (0 :: 8 word);
          outBufSize = 256;
          result = \<lparr>Code = ioctlCode, Valid = False, ErrorCode = None, BytesReturned = 0\<rparr>;
          ((ok, err, bytesReturned), s') = dioc hDevice ioctlCode inBuf outBufSize s;
          result = result\<lparr>BytesReturned := bytesReturned\<rparr>;
          result = result\<lparr>ErrorCode := err\<rparr>;
          result =
            (case err of
               None \<Rightarrow> result\<lparr>Valid := True\<rparr>
             | Some (Errno errno) \<Rightarrow>
                 if errno = ERROR_INSUFFICIENT_BUFFER \<or> errno = ERROR_MORE_DATA
                    \<or> errno = ERROR_INVALID_PARAMETER \<or> errno = ERROR_BAD_LENGTH
                    \<or> errno = ERROR_INVALID_USER_BUFFER \<or> errno = ERROR_ACCESS_DENIED
                 then result\<lparr>Valid := True\<rparr>
                 else if errno = ERROR_INVALID_FUNCTION \<or> errno = ERROR_NOT_SUPPORTED
                    \<or> errno = ERROR_CALL_NOT_IMPLEMENTED
                 then result\<lparr>Valid := False\<rparr>
                 else result\<lparr>Valid := True\<rparr>
             | Some (OtherError msg) \<Rightarrow> result)
      in (result, s'))"

subsection \<open>Loops over \<open>uint32\<close> counters\<close>

text \<open>
  \<open>for i := lo; i <= hi; i++ { acc = body(i, acc) }\<close> with a \<open>uint32\<close> counter: the
  increment wraps around, so the loop need not end. Not returning is \<open>None\<close>.
\<close>

partial_function (option) for_uint32 ::
  "32 word \<Rightarrow> 32 word \<Rightarrow> (32 word \<Rightarrow> 'a \<Rightarrow> 'a) \<Rightarrow> 'a \<Rightarrow> 'a option" where
  "for_uint32 i hi body acc =
     (if i \<le> hi then for_uint32 (i + 1) hi body (body i acc) else Some acc)"

subsection \<open>Scanning a range of codes\<close>

text \<open>The body of the loop of \<open>ScanIOCTLRange\<close>: probe, keep the result when valid.\<close>

definition scan_step ::
  "'s device_control \<Rightarrow> HANDLE \<Rightarrow> 32 word \<Rightarrow> IOCTLProbeResult list \<times> 's
     \<Rightarrow> IOCTLProbeResult list \<times> 's" where
  "scan_step dioc hDevice code = (\<lambda>(results, s).
     let (result, s') = ProbeIOCTL dioc hDevice code s
     in (if Valid result then results @ [result] else results, s'))"

definition ScanIOCTLRange ::
  "'s device_control \<Rightarrow> HANDLE \<Rightarrow> 32 word \<Rightarrow> 32 word \<Rightarrow> 's
     \<Rightarrow> (IOCTLProbeResult list \<times> 's) option" where
  "ScanIOCTLRange dioc hDevice startCode endCode s =
     for_uint32 startCode endCode (scan_step dioc hDevice) ([], s)"

subsection \<open>Discovery by device type\<close>

definition functionRanges :: "(32 word \<times> 32 word) list" where
  "functionRanges = [(0x000, 0x100), (0x400, 0x600), (0x800, 0x900), (0xF00, 0xFFF)]"

definition methods :: "32 word list" where
  "methods = [METHOD_BUFFERED, METHOD_IN_DIRECT, METHOD_OUT_DIRECT, METHOD_NEITHER]"

definition accessLevels :: "32 word list" where
  "accessLevels = [FILE_ANY_ACCESS, FILE_READ_ACCESS, FILE_WRITE_ACCESS, 3]"

text \<open>
  The innermost loop, over the access levels. The flag of the result is \<open>True\<close> when the
  loop left through \<open>goto nextFunction\<close>.
\<close>

fun probe_accessLevels ::
  "'s device_control \<Rightarrow> HANDLE \<Rightarrow> 32 word \<Rightarrow> 32 word \<Rightarrow> 32 word \<Rightarrow> 32 word list
     \<Rightarrow> IOCTLProbeResult list \<times> 's \<Rightarrow> bool \<times> IOCTLProbeResult list \<times> 's" where
  "probe_accessLevels dioc hDevice deviceType function method [] (results, s) =
     (False, results, s)"
| "probe_accessLevels dioc hDevice deviceType function method (access # rest) (results, s) =
     (let code = CTL_CODE deviceType function method access;
          (result, s') = ProbeIOCTL dioc hDevice code s
      in if Valid result then (True, results @ [result], s')
         else probe_accessLevels dioc hDevice deviceType function method rest (results, s'))"

text \<open>The loop over the methods; it ends early when the inner loop jumped.\<close>

fun probe_methods ::
  "'s device_control \<Rightarrow> HANDLE \<Rightarrow> 32 word \<Rightarrow> 32 word \<Rightarrow> 32 word list \<Rightarrow> 32 word list
     \<Rightarrow> IOCTLProbeResult list \<times> 's \<Rightarrow> IOCTLProbeResult list \<times> 's" where
  "probe_methods dioc hDevice deviceType function [] levels acc = acc"
| "probe_methods dioc hDevice deviceType function (method # rest) levels acc =
     (case probe_accessLevels dioc hDevice deviceType function method levels acc of
        (True, acc') \<Rightarrow> acc'
      | (False, acc') \<Rightarrow> probe_methods dioc hDevice deviceType function rest levels acc')"

text \<open>The outer loop, over the function ranges.\<close>

fun for_ranges ::
  "(32 word \<times> 32 word) list \<Rightarrow> (32 word \<Rightarrow> 'a \<Rightarrow> 'a) \<Rightarrow> 'a \<Rightarrow> 'a option" where
  "for_ranges [] body acc = Some acc"
| "for_ranges ((first, final) # rest) body acc =
     (case for_uint32 first final body acc of
        None \<Rightarrow> None
      | Some acc' \<Rightarrow> for_ranges rest body acc')"

definition DiscoverIOCTLsByDeviceType ::
  "'s device_control \<Rightarrow> HANDLE \<Rightarrow> 32 word \<Rightarrow> 's \<Rightarrow> (IOCTLProbeResult list \<times> 's) option" where
  "DiscoverIOCTLsByDeviceType dioc hDevice deviceType s =
     for_ranges functionRanges
       (\<lambda>function. probe_methods dioc hDevice deviceType function methods accessLevels)
       ([], s)"

subsection \<open>Observing the probes\<close>

text \<open>
  To speak about the calls a scan issues, a device is wrapped so that it records every
  call: the code and the outcome, in the order of the calls. The wrapped device answers
  as the device does.
\<close>

type_synonym probe_log = "(32 word \<times> outcome) list"

definition logged :: "'s device_control \<Rightarrow> ('s \<times> probe_log) device_control" where
  "logged dioc hDevice code inBuf outBufSize = (\<lambda>(s, log).
     let (out, s') = dioc hDevice code inBuf outBufSize s
     in (out, (s', log @ [(code, out)])))"

text \<open>The result \<open>ProbeIOCTL\<close> builds for a code when the device answers \<open>out\<close>.\<close>

definition probe_result :: "32 word \<times> outcome \<Rightarrow> IOCTLProbeResult" where
  "probe_result e = fst (ProbeIOCTL (\<lambda>h c b n u. (snd e, u)) 0 (fst e) ())"

definition recognized :: "32 word \<times> outcome \<Rightarrow> bool" where
  "recognized e = Valid (probe_result e)"

subsection \<open>What the targeted scan is meant to try\<close>

text \<open>
  The function values of the four sub-ranges \<open>[0, 0x100]\<close>, \<open>[0x400, 0x600]\<close>,
  \<open>[0x800, 0x900]\<close>, \<open>[0xF00, 0xFFF]\<close>, in that order and ascending, and for one
  function value the candidate codes: the four methods crossed with the four access
  levels, methods in the outer position.
\<close>

definition target_functions :: "32 word list" where
  "target_functions =
     map word_of_nat ([0x000 ..< 0x101] @ [0x400 ..< 0x601] @ [0x800 ..< 0x901] @ [0xF00 ..< 0x1000])"

definition candidates :: "32 word \<Rightarrow> 32 word \<Rightarrow> 32 word list" where
  "candidates deviceType function =
     concat (map (\<lambda>method. map (\<lambda>access. CTL_CODE deviceType function method access)
                                [FILE_ANY_ACCESS, FILE_READ_ACCESS, FILE_WRITE_ACCESS, 3])
                 [METHOD_BUFFERED, METHOD_IN_DIRECT, METHOD_OUT_DIRECT, METHOD_NEITHER])"

text \<open>
  The early-exit rule on the probes \<open>B\<close> issued for one list of candidate codes: the
  probed codes are a prefix of the candidates, no probe but the last is recognized,
  and the probes stop short of the whole list only after a recognized probe.
\<close>

definition early_exit_block :: "32 word list \<Rightarrow> probe_log \<Rightarrow> bool" where
  "early_exit_block cands B \<longleftrightarrow>
     prefix (map fst B) cands
     \<and> (\<forall>e \<in> set (butlast B). \<not> recognized e)
     \<and> (map fst B = cands \<or> (B \<noteq> [] \<and> recognized (last B)))"

text \<open>No probe follows a recognized probe of the same function value.\<close>

fun quiet_after_hit :: "probe_log \<Rightarrow> bool" where
  "quiet_after_hit [] = True"
| "quiet_after_hit (e # es) =
     ((recognized e \<longrightarrow> (\<forall>e' \<in> set es. ExtractFunction (fst e') \<noteq> ExtractFunction (fst e)))
      \<and> quiet_after_hit es)"

text \<open>A recorded outcome is an answer of the device to that code.\<close>

definition answered_by :: "'s device_control \<Rightarrow> HANDLE \<Rightarrow> 32 word \<times> outcome \<Rightarrow> bool" where
  "answered_by dioc hDevice e \<longleftrightarrow>
     (\<exists>s. snd e = fst (dioc hDevice (fst e) (replicate 16 0) 256 s))"

section \<open>Properties of the codec\<close>

lemma mask16_numeral: "(0xFFFF :: 32 word) = mask 16"
  by (simp add: mask_eq_exp_minus_1)

lemma mask12_numeral: "(0xFFF :: 32 word) = mask 12"
  by (simp add: mask_eq_exp_minus_1)

lemma mask2_numeral: "(0x3 :: 32 word) = mask 2"
  by (simp add: mask_eq_exp_minus_1)

lemmas field_masks = mask16_numeral mask12_numeral mask2_numeral

lemma CTL_CODE_bit:
  "bit (CTL_CODE deviceType function method access) n \<longleftrightarrow>
     (n < 2 \<and> bit method n) \<or> (2 \<le> n \<and> n < 14 \<and> bit function (n - 2))
     \<or> (14 \<le> n \<and> n < 16 \<and> bit access (n - 14))
     \<or> (16 \<le> n \<and> n < 32 \<and> bit deviceType (n - 16))"
proof -
  consider "n < 2" | "2 \<le> n" "n < 14" | "14 \<le> n" "n < 16" | "16 \<le> n" "n < 32" | "32 \<le> n"
    by linarith
  then show ?thesis
  proof cases
    case 1
    then show ?thesis unfolding CTL_CODE_def field_masks by (auto simp add: bit_simps)
  next
    case 2
    then show ?thesis unfolding CTL_CODE_def field_masks by (auto simp add: bit_simps)
  next
    case 3
    then show ?thesis unfolding CTL_CODE_def field_masks by (auto simp add: bit_simps)
  next
    case 4
    then show ?thesis unfolding CTL_CODE_def field_masks by (auto simp add: bit_simps)
  next
    case 5
    then show ?thesis unfolding CTL_CODE_def field_masks by (auto simp add: bit_simps)
  qed
qed

lemma ExtractDeviceType_CTL_CODE:
  "ExtractDeviceType (CTL_CODE deviceType function method access) = deviceType AND 0xFFFF"
  unfolding ExtractDeviceType_def CTL_CODE_def field_masks
  by (rule bit_word_eqI) (auto simp add: bit_simps)

lemma ExtractFunction_CTL_CODE:
  "ExtractFunction (CTL_CODE deviceType function method access) = function AND 0xFFF"
  unfolding ExtractFunction_def CTL_CODE_def field_masks
  by (rule bit_word_eqI) (auto simp add: bit_simps)

lemma ExtractMethod_CTL_CODE:
  "ExtractMethod (CTL_CODE deviceType function method access) = method AND 0x3"
  unfolding ExtractMethod_def CTL_CODE_def field_masks
  by (rule bit_word_eqI) (auto simp add: bit_simps)

lemma ExtractAccess_CTL_CODE:
  "ExtractAccess (CTL_CODE deviceType function method access) = access AND 0x3"
  unfolding ExtractAccess_def CTL_CODE_def field_masks
  by (rule bit_word_eqI) (auto simp add: bit_simps)

lemma in_range_16:
  fixes w :: "32 word"
  assumes "w \<le> 0xFFFF"
  shows "w AND 0xFFFF = w"
proof -
  from assms have "w < 2 ^ 16"
    by (simp add: word_le_nat_alt word_less_nat_alt)
  then have "w AND mask 16 = w"
    by (rule less_mask_eq)
  then show ?thesis
    by (simp only: mask16_numeral)
qed

lemma in_range_12:
  fixes w :: "32 word"
  assumes "w \<le> 0xFFF"
  shows "w AND 0xFFF = w"
proof -
  from assms have "w < 2 ^ 12"
    by (simp add: word_le_nat_alt word_less_nat_alt)
  then have "w AND mask 12 = w"
    by (rule less_mask_eq)
  then show ?thesis
    by (simp only: mask12_numeral)
qed

lemma in_range_2:
  fixes w :: "32 word"
  assumes "w \<le> 0x3"
  shows "w AND 0x3 = w"
proof -
  from assms have "w < 2 ^ 2"
    by (simp add: word_le_nat_alt word_less_nat_alt)
  then have "w AND mask 2 = w"
    by (rule less_mask_eq)
  then show ?thesis
    by (simp only: mask2_numeral)
qed

text \<open>
  C1 (round-trip law). For every device type in \<open>[0, 0xFFFF]\<close>, function in
  \<open>[0, 0xFFF]\<close>, method in \<open>[0, 3]\<close> and access in \<open>[0, 3]\<close>, the four extractors
  applied to \<open>CTL_CODE deviceType function method access\<close> give back exactly that
  quadruple.
\<close>

theorem ioctl_round_trip:
  assumes "deviceType \<le> 0xFFFF" and "function \<le> 0xFFF" and "method \<le> 3" and "access \<le> 3"
  shows "ExtractDeviceType (CTL_CODE deviceType function method access) = deviceType
       \<and> ExtractFunction (CTL_CODE deviceType function method access) = function
       \<and> ExtractMethod (CTL_CODE deviceType function method access) = method
       \<and> ExtractAccess (CTL_CODE deviceType function method access) = access"
  using assms
  by (simp add: ExtractDeviceType_CTL_CODE ExtractFunction_CTL_CODE ExtractMethod_CTL_CODE
      ExtractAccess_CTL_CODE in_range_16 in_range_12 in_range_2)

theorem ioctl_round_trip_witness:
  "(0x8000 :: 32 word) \<le> 0xFFFF \<and> (0xFFF :: 32 word) \<le> 0xFFF
   \<and> METHOD_NEITHER \<le> 3 \<and> (3 :: 32 word) \<le> 3
   \<and> CTL_CODE 0x8000 0xFFF METHOD_NEITHER 3 = 0x8000FFFF
   \<and> ExtractDeviceType (CTL_CODE 0x8000 0xFFF METHOD_NEITHER 3) = 0x8000
   \<and> ExtractFunction (CTL_CODE 0x8000 0xFFF METHOD_NEITHER 3) = 0xFFF
   \<and> ExtractMethod (CTL_CODE 0x8000 0xFFF METHOD_NEITHER 3) = METHOD_NEITHER
   \<and> ExtractAccess (CTL_CODE 0x8000 0xFFF METHOD_NEITHER 3) = 3"
proof -
  have code: "CTL_CODE 0x8000 0xFFF METHOD_NEITHER 3 = 0x8000FFFF"
    by (simp add: CTL_CODE_def)
  show ?thesis
    using ioctl_round_trip [of "0x8000" "0xFFF" METHOD_NEITHER 3] code by simp
qed

text \<open>
  C7 (encode masking). \<open>CTL_CODE\<close> is a total function of its four arguments: it has
  no error result. Whatever the arguments, bits 1-0 of the code are bits 1-0 of the
  method, bits 13-2 are bits 11-0 of the function, bits 15-14 are bits 1-0 of the
  access and bits 31-16 are bits 15-0 of the device type; the excess bits of an
  oversized argument appear nowhere in the code, so each extractor returns the
  argument masked to its field width and the code is the code of the masked arguments.
\<close>

theorem CTL_CODE_masks_inputs:
  "(bit (CTL_CODE deviceType function method access) n \<longleftrightarrow>
      (n < 2 \<and> bit method n) \<or> (2 \<le> n \<and> n < 14 \<and> bit function (n - 2))
      \<or> (14 \<le> n \<and> n < 16 \<and> bit access (n - 14))
      \<or> (16 \<le> n \<and> n < 32 \<and> bit deviceType (n - 16)))
   \<and> ExtractDeviceType (CTL_CODE deviceType function method access) = deviceType AND 0xFFFF
   \<and> ExtractFunction (CTL_CODE deviceType function method access) = function AND 0xFFF
   \<and> ExtractMethod (CTL_CODE deviceType function method access) = method AND 0x3
   \<and> ExtractAccess (CTL_CODE deviceType function method access) = access AND 0x3
   \<and> CTL_CODE deviceType function method access
       = CTL_CODE (deviceType AND 0xFFFF) (function AND 0xFFF) (method AND 0x3) (access AND 0x3)"
proof (intro conjI)
  show "bit (CTL_CODE deviceType function method access) n \<longleftrightarrow>
      (n < 2 \<and> bit method n) \<or> (2 \<le> n \<and> n < 14 \<and> bit function (n - 2))
      \<or> (14 \<le> n \<and> n < 16 \<and> bit access (n - 14))
      \<or> (16 \<le> n \<and> n < 32 \<and> bit deviceType (n - 16))"
    by (rule CTL_CODE_bit)
  show "ExtractDeviceType (CTL_CODE deviceType function method access) = deviceType AND 0xFFFF"
    by (rule ExtractDeviceType_CTL_CODE)
  show "ExtractFunction (CTL_CODE deviceType function method access) = function AND 0xFFF"
    by (rule ExtractFunction_CTL_CODE)
  show "ExtractMethod (CTL_CODE deviceType function method access) = method AND 0x3"
    by (rule ExtractMethod_CTL_CODE)
  show "ExtractAccess (CTL_CODE deviceType function method access) = access AND 0x3"
    by (rule ExtractAccess_CTL_CODE)
  show "CTL_CODE deviceType function method access
       = CTL_CODE (deviceType AND 0xFFFF) (function AND 0xFFF) (method AND 0x3) (access AND 0x3)"
    by (simp add: CTL_CODE_def)
qed

section \<open>Properties of the decoder and the formatters\<close>

lemma le3_cases:
  fixes x :: "32 word"
  assumes "x \<le> 3"
  shows "x = 0 \<or> x = 1 \<or> x = 2 \<or> x = 3"
  using assms by unat_arith

lemma and3_cases: "(w :: 32 word) AND 3 = 0 \<or> w AND 3 = 1 \<or> w AND 3 = 2 \<or> w AND 3 = 3"
  by (rule le3_cases) (rule word_and_le1)

lemma GetMethodName_ExtractMethod:
  "GetMethodName (ExtractMethod c) \<in> {''BUFFERED'', ''IN_DIRECT'', ''OUT_DIRECT'', ''NEITHER''}"
  using and3_cases [of c]
  by (auto simp add: GetMethodName_def ExtractMethod_def methodNames_def)

lemma DecodeIOCTL_fields:
  "IOCTLCode (DecodeIOCTL c) = c"
  "DeviceType (DecodeIOCTL c) = ExtractDeviceType c"
  "DeviceTypeName (DecodeIOCTL c) = GetDeviceTypeName (ExtractDeviceType c)"
  "Function (DecodeIOCTL c) = ExtractFunction c"
  "Method (DecodeIOCTL c) = ExtractMethod c"
  "MethodName (DecodeIOCTL c) = GetMethodName (ExtractMethod c)"
  "Access (DecodeIOCTL c) = ExtractAccess c"
  "AccessName (DecodeIOCTL c) = GetAccessName (ExtractAccess c)"
  "KnownName (DecodeIOCTL c) = fst (LookupKnownIOCTL c)"
  by (simp_all add: DecodeIOCTL_def Let_def LookupKnownIOCTL_def split: option.splits)

lemma deviceTypeNames_keys:
  assumes "map_of deviceTypeNames deviceType = Some name"
  shows "1 \<le> deviceType \<and> deviceType \<le> 0x3B"
proof -
  from assms have "(deviceType, name) \<in> set deviceTypeNames"
    by (rule map_of_SomeD)
  then show ?thesis
    unfolding deviceTypeNames_def by auto
qed

lemma replicate_numeral_unfold: "replicate (numeral k) x = x # replicate (pred_numeral k) x"
  by (simp add: numeral_eq_Suc)

lemmas fmt_simps =
  Sprintf_0X_def Sprintf_X_def hex_of_nat.simps hex_digit_def replicate_numeral_unfold

lemmas decode_simps =
  DecodeIOCTL_def ExtractDeviceType_def ExtractFunction_def ExtractMethod_def
  ExtractAccess_def GetDeviceTypeName_def GetMethodName_def GetAccessName_def
  LookupKnownIOCTL_def deviceTypeNames_def methodNames_def accessNames_def knownIOCTLs_def

lemma DecodeIOCTL_disk:
  "DecodeIOCTL 0x00070000 =
     \<lparr>IOCTLCode = 0x00070000, DeviceType = FILE_DEVICE_DISK, DeviceTypeName = ''DISK'',
      Function = 0, Method = METHOD_BUFFERED, MethodName = ''BUFFERED'',
      Access = FILE_ANY_ACCESS, AccessName = ''ANY'',
      KnownName = ''IOCTL_DISK_GET_DRIVE_GEOMETRY''\<rparr>"
  by (simp add: decode_simps)

lemma DecodeIOCTL_zero:
  "DecodeIOCTL 0x00000000 =
     \<lparr>IOCTLCode = 0, DeviceType = 0, DeviceTypeName = ''UNKNOWN'',
      Function = 0, Method = METHOD_BUFFERED, MethodName = ''BUFFERED'',
      Access = FILE_ANY_ACCESS, AccessName = ''ANY'', KnownName = ''''\<rparr>"
  by (simp add: decode_simps)

lemma DecodeIOCTL_ones:
  "DecodeIOCTL 0xFFFFFFFF =
     \<lparr>IOCTLCode = 0xFFFFFFFF, DeviceType = 0xFFFF, DeviceTypeName = ''CUSTOM'',
      Function = 0xFFF, Method = METHOD_NEITHER, MethodName = ''NEITHER'',
      Access = 3, AccessName = ''READ_WRITE'', KnownName = ''''\<rparr>"
  by (simp add: decode_simps)

lemma Sprintf_disk:
  "Sprintf_0X 8 0x00070000 = ''00070000''"
  "Sprintf_0X 4 7 = ''0007''"
  "Sprintf_0X 3 0 = ''000''"
  "Sprintf_X 0 = ''0''"
  by (simp_all add: fmt_simps)

text \<open>
  C6 (decode totality and sentinel names). \<open>DecodeIOCTL\<close> has no failing branch: for
  every 32-bit code it returns components whose numeric fields are the extracted bit
  fields. The device-type name is the table's name when the device type is a key of
  \<open>deviceTypeNames\<close>, \<open>CUSTOM\<close> when it is no key and at least \<open>0x8000\<close>, and
  \<open>UNKNOWN\<close> when it is no key and below \<open>0x8000\<close>. The method name is always one of
  the four defined names and never \<open>INVALID\<close>, because the extracted method is a
  2-bit value.
\<close>

theorem DecodeIOCTL_total_names:
  "IOCTLCode (DecodeIOCTL c) = c
   \<and> DeviceType (DecodeIOCTL c) = ExtractDeviceType c
   \<and> Function (DecodeIOCTL c) = ExtractFunction c
   \<and> Method (DecodeIOCTL c) = ExtractMethod c
   \<and> Access (DecodeIOCTL c) = ExtractAccess c
   \<and> (\<forall>name. map_of deviceTypeNames (ExtractDeviceType c) = Some name
         \<longrightarrow> DeviceTypeName (DecodeIOCTL c) = name)
   \<and> (map_of deviceTypeNames (ExtractDeviceType c) = None \<and> ExtractDeviceType c \<ge> 0x8000
         \<longrightarrow> DeviceTypeName (DecodeIOCTL c) = ''CUSTOM'')
   \<and> (map_of deviceTypeNames (ExtractDeviceType c) = None \<and> ExtractDeviceType c < 0x8000
         \<longrightarrow> DeviceTypeName (DecodeIOCTL c) = ''UNKNOWN'')
   \<and> (ExtractDeviceType c \<ge> 0x8000 \<longrightarrow> DeviceTypeName (DecodeIOCTL c) = ''CUSTOM'')
   \<and> MethodName (DecodeIOCTL c) \<in> {''BUFFERED'', ''IN_DIRECT'', ''OUT_DIRECT'', ''NEITHER''}
   \<and> MethodName (DecodeIOCTL c) \<noteq> ''INVALID''"
proof -
  have custom: "DeviceTypeName (DecodeIOCTL c) = ''CUSTOM''" if "ExtractDeviceType c \<ge> 0x8000"
  proof (cases "map_of deviceTypeNames (ExtractDeviceType c)")
    case None
    with that show ?thesis
      by (simp add: DecodeIOCTL_fields GetDeviceTypeName_def)
  next
    case (Some name)
    then have "ExtractDeviceType c \<le> 0x3B"
      using deviceTypeNames_keys by blast
    with that have False
      by unat_arith
    then show ?thesis ..
  qed
  have mname: "MethodName (DecodeIOCTL c) \<in> {''BUFFERED'', ''IN_DIRECT'', ''OUT_DIRECT'', ''NEITHER''}"
    using GetMethodName_ExtractMethod [of c] by (simp only: DecodeIOCTL_fields)
  then have mname_ok: "MethodName (DecodeIOCTL c) \<noteq> ''INVALID''"
    by auto
  have known: "\<forall>name. map_of deviceTypeNames (ExtractDeviceType c) = Some name
         \<longrightarrow> DeviceTypeName (DecodeIOCTL c) = name"
    by (simp add: DecodeIOCTL_fields GetDeviceTypeName_def)
  have unknown: "map_of deviceTypeNames (ExtractDeviceType c) = None \<and> ExtractDeviceType c < 0x8000
         \<longrightarrow> DeviceTypeName (DecodeIOCTL c) = ''UNKNOWN''"
    by (simp add: DecodeIOCTL_fields GetDeviceTypeName_def word_less_def word_le_def)
  from custom mname mname_ok known unknown show ?thesis
    by (intro conjI) (simp_all only: DecodeIOCTL_fields, blast+)
qed

theorem DecodeIOCTL_total_names_witness:
  "DeviceTypeName (DecodeIOCTL 0x00070000) = ''DISK''
   \<and> DecodeIOCTL 0x00000000 =
       \<lparr>IOCTLCode = 0, DeviceType = 0, DeviceTypeName = ''UNKNOWN'',
        Function = 0, Method = METHOD_BUFFERED, MethodName = ''BUFFERED'',
        Access = FILE_ANY_ACCESS, AccessName = ''ANY'', KnownName = ''''\<rparr>
   \<and> DecodeIOCTL 0xFFFFFFFF =
       \<lparr>IOCTLCode = 0xFFFFFFFF, DeviceType = 0xFFFF, DeviceTypeName = ''CUSTOM'',
        Function = 0xFFF, Method = METHOD_NEITHER, MethodName = ''NEITHER'',
        Access = 3, AccessName = ''READ_WRITE'', KnownName = ''''\<rparr>
   \<and> map_of deviceTypeNames (ExtractDeviceType 0x00070000) = Some ''DISK''
   \<and> map_of deviceTypeNames (ExtractDeviceType 0x00000000) = None
   \<and> ExtractDeviceType 0x00000000 < 0x8000
   \<and> ExtractDeviceType 0xFFFFFFFF \<ge> 0x8000"
proof -
  have disk: "map_of deviceTypeNames (ExtractDeviceType 0x00070000) = Some ''DISK''"
    by (simp add: ExtractDeviceType_def deviceTypeNames_def)
  have zero: "map_of deviceTypeNames (ExtractDeviceType 0x00000000) = None"
    "ExtractDeviceType 0x00000000 < 0x8000"
    by (simp_all add: ExtractDeviceType_def deviceTypeNames_def)
  have ones: "ExtractDeviceType 0xFFFFFFFF \<ge> 0x8000"
    by (simp add: ExtractDeviceType_def)
  from disk have "DeviceTypeName (DecodeIOCTL 0x00070000) = ''DISK''"
    using DecodeIOCTL_total_names [of "0x00070000"] by blast
  with disk zero ones show ?thesis
    by (simp add: DecodeIOCTL_zero DecodeIOCTL_ones)
qed

text \<open>
  C8 (known-code fixtures). \<open>CTL_CODE 7 0 0 0\<close> is \<open>0x00070000\<close>; it decodes with
  device-type name \<open>DISK\<close>, method name \<open>BUFFERED\<close>, access name \<open>ANY\<close> and a
  non-empty known name; \<open>FormatIOCTLHex\<close> of it is exactly
  \<open>0x00070000 [Device:0x0007 Access:0x0 Func:0x000 Method:0x0]\<close>; and
  \<open>FormatIOCTL\<close> of it contains \<open>DISK(function:0x0, method:BUFFERED, access:ANY)\<close>
  as a contiguous substring.
\<close>

theorem known_code_fixtures:
  "CTL_CODE 7 0 0 0 = 0x00070000
   \<and> DeviceTypeName (DecodeIOCTL (CTL_CODE 7 0 0 0)) = ''DISK''
   \<and> MethodName (DecodeIOCTL (CTL_CODE 7 0 0 0)) = ''BUFFERED''
   \<and> AccessName (DecodeIOCTL (CTL_CODE 7 0 0 0)) = ''ANY''
   \<and> KnownName (DecodeIOCTL (CTL_CODE 7 0 0 0)) \<noteq> ''''
   \<and> FormatIOCTLHex (CTL_CODE 7 0 0 0)
       = ''0x00070000 [Device:0x0007 Access:0x0 Func:0x000 Method:0x0]''
   \<and> FormatIOCTL (CTL_CODE 7 0 0 0)
       = ''IOCTL_DISK_GET_DRIVE_GEOMETRY: DISK(function:0x0, method:BUFFERED, access:ANY)''
   \<and> sublist ''DISK(function:0x0, method:BUFFERED, access:ANY)'' (FormatIOCTL (CTL_CODE 7 0 0 0))"
proof -
  have code: "CTL_CODE 7 0 0 0 = 0x00070000"
    by (simp add: CTL_CODE_def)
  have hex: "FormatIOCTLHex 0x00070000
      = ''0x00070000 [Device:0x0007 Access:0x0 Func:0x000 Method:0x0]''"
    by (simp add: FormatIOCTLHex_def DecodeIOCTL_disk Let_def Sprintf_disk)
  have compact: "FormatIOCTL 0x00070000
      = ''IOCTL_DISK_GET_DRIVE_GEOMETRY: DISK(function:0x0, method:BUFFERED, access:ANY)''"
    by (simp add: FormatIOCTL_def DecodeIOCTL_disk Let_def Sprintf_disk)
  have "FormatIOCTL 0x00070000
      = ''IOCTL_DISK_GET_DRIVE_GEOMETRY: ''
        @ ''DISK(function:0x0, method:BUFFERED, access:ANY)'' @ ''''"
    by (simp add: compact)
  then have sub: "sublist ''DISK(function:0x0, method:BUFFERED, access:ANY)'' (FormatIOCTL 0x00070000)"
    unfolding sublist_def by blast
  show ?thesis
    unfolding code using hex compact sub by (simp add: DecodeIOCTL_disk)
qed

section \<open>Properties of the loops\<close>

text \<open>A counter loop that returns has an upper end other than \<open>0xFFFFFFFF\<close>.\<close>

lemma for_uint32_Some_bound:
  assumes "for_uint32 i hi body acc = Some y"
  shows "hi \<noteq> 0xFFFFFFFF"
proof (rule for_uint32.raw_induct
    [where P = "\<lambda>i hi body acc y. hi \<noteq> 0xFFFFFFFF", OF _ assms])
  fix loop :: "32 word \<Rightarrow> 32 word \<Rightarrow> (32 word \<Rightarrow> 'a \<Rightarrow> 'a) \<Rightarrow> 'a \<Rightarrow> 'a option"
    and i hi :: "32 word" and body :: "32 word \<Rightarrow> 'a \<Rightarrow> 'a" and acc y :: 'a
  assume IH: "\<And>i hi body acc y. loop i hi body acc = Some y \<Longrightarrow> hi \<noteq> 0xFFFFFFFF"
    and run: "(if i \<le> hi then loop (i + 1) hi body (body i acc) else Some acc) = Some y"
  show "hi \<noteq> 0xFFFFFFFF"
  proof (cases "i \<le> hi")
    case True
    with run IH show ?thesis by simp
  next
    case False
    then have "unat hi < unat i"
      by (simp add: word_le_nat_alt)
    moreover have "unat i < 2 ^ 32"
      using unsigned_less [of i] by simp
    ultimately have "unat hi \<noteq> unat (0xFFFFFFFF :: 32 word)"
      by simp
    then show ?thesis by auto
  qed
qed

lemma for_uint32_never_returns:
  "for_uint32 i 0xFFFFFFFF body acc = None"
  using for_uint32_Some_bound [of i "0xFFFFFFFF" body acc]
  by (cases "for_uint32 i 0xFFFFFFFF body acc") auto

lemma unat_succ_below:
  fixes i hi :: "32 word"
  assumes "i \<le> hi" and "hi < 0xFFFFFFFF"
  shows "unat (i + 1) = Suc (unat i)"
proof -
  from assms have "unat i < 4294967295"
    by (simp add: word_le_nat_alt word_less_nat_alt)
  then show ?thesis
    by (simp add: unat_word_ariths)
qed

text \<open>
  With an upper end below \<open>0xFFFFFFFF\<close> the loop returns, having run its body on the
  values from \<open>i\<close> to \<open>hi\<close> in ascending order (on none when \<open>i > hi\<close>).
\<close>

lemma for_uint32_returns:
  assumes "hi < 0xFFFFFFFF"
  shows "for_uint32 i hi body acc
           = Some (fold body (map word_of_nat [unat i ..< Suc (unat hi)]) acc)"
proof (induction "Suc (unat hi) - unat i" arbitrary: i acc)
  case 0
  then have "\<not> i \<le> hi"
    by (simp add: word_le_nat_alt)
  moreover from 0 have "[unat i ..< Suc (unat hi)] = []"
    by simp
  ultimately show ?case
    by (simp add: for_uint32.simps)
next
  case (Suc n)
  then have le: "i \<le> hi"
    by (simp add: word_le_nat_alt)
  then have step: "unat (i + 1) = Suc (unat i)"
    using assms by (rule unat_succ_below)
  with Suc have "n = Suc (unat hi) - unat (i + 1)"
    by simp
  then have "for_uint32 (i + 1) hi body (body i acc)
      = Some (fold body (map word_of_nat [unat (i + 1) ..< Suc (unat hi)]) (body i acc))"
    by (rule Suc.hyps(1))
  moreover from le have "[unat i ..< Suc (unat hi)] = unat i # [unat (i + 1) ..< Suc (unat hi)]"
    by (simp add: step upt_conv_Cons word_le_nat_alt)
  ultimately show ?case
    using le by (subst for_uint32.simps) simp
qed

section \<open>Properties of the classifier\<close>

lemma ProbeIOCTL_eq:
  "ProbeIOCTL dioc hDevice code s =
     (probe_result (code, fst (dioc hDevice code (replicate 16 0) 256 s)),
      snd (dioc hDevice code (replicate 16 0) 256 s))"
  by (simp add: probe_result_def ProbeIOCTL_def Let_def
      split: prod.splits option.splits go_error.splits)

lemma probe_result_fields:
  "Code (probe_result (code, ok, err, n)) = code"
  "ErrorCode (probe_result (code, ok, err, n)) = err"
  "BytesReturned (probe_result (code, ok, err, n)) = n"
  by (simp_all add: probe_result_def ProbeIOCTL_def Let_def split: option.splits go_error.splits)

lemma probe_result_Valid:
  "Valid (probe_result (code, ok, err, n)) \<longleftrightarrow>
     (case err of
        None \<Rightarrow> True
      | Some (Errno errno) \<Rightarrow>
          errno \<noteq> ERROR_INVALID_FUNCTION \<and> errno \<noteq> ERROR_NOT_SUPPORTED
          \<and> errno \<noteq> ERROR_CALL_NOT_IMPLEMENTED
      | Some (OtherError msg) \<Rightarrow> False)"
  by (auto simp add: probe_result_def ProbeIOCTL_def Let_def split: option.splits go_error.splits)

text \<open>
  C2 (classifier policy). Let the device-control call answer with error \<open>err\<close>.
  \<open>ProbeIOCTL\<close> marks the code valid when the call succeeds (no error); valid when
  the error is one of the six signals insufficient buffer, more data, invalid
  parameter, bad length, invalid user buffer, access denied; not valid when it is
  invalid function, not supported or call not implemented; and valid for every other
  \<open>Errno\<close> signal. The result carries the code, the error and the byte count.
\<close>

theorem ProbeIOCTL_classifier:
  assumes "dioc hDevice ioctlCode (replicate 16 0) 256 s = ((ok, err, n), s')"
  shows "(err = None \<longrightarrow> Valid (fst (ProbeIOCTL dioc hDevice ioctlCode s)))
       \<and> (\<forall>errno \<in> {ERROR_INSUFFICIENT_BUFFER, ERROR_MORE_DATA, ERROR_INVALID_PARAMETER,
                      ERROR_BAD_LENGTH, ERROR_INVALID_USER_BUFFER, ERROR_ACCESS_DENIED}.
             err = Some (Errno errno) \<longrightarrow> Valid (fst (ProbeIOCTL dioc hDevice ioctlCode s)))
       \<and> (\<forall>errno \<in> {ERROR_INVALID_FUNCTION, ERROR_NOT_SUPPORTED, ERROR_CALL_NOT_IMPLEMENTED}.
             err = Some (Errno errno) \<longrightarrow> \<not> Valid (fst (ProbeIOCTL dioc hDevice ioctlCode s)))
       \<and> (\<forall>errno. errno \<notin> {ERROR_INSUFFICIENT_BUFFER, ERROR_MORE_DATA, ERROR_INVALID_PARAMETER,
                      ERROR_BAD_LENGTH, ERROR_INVALID_USER_BUFFER, ERROR_ACCESS_DENIED,
                      ERROR_INVALID_FUNCTION, ERROR_NOT_SUPPORTED, ERROR_CALL_NOT_IMPLEMENTED}
             \<longrightarrow> err = Some (Errno errno)
             \<longrightarrow> Valid (fst (ProbeIOCTL dioc hDevice ioctlCode s)))
       \<and> Code (fst (ProbeIOCTL dioc hDevice ioctlCode s)) = ioctlCode
       \<and> ErrorCode (fst (ProbeIOCTL dioc hDevice ioctlCode s)) = err
       \<and> BytesReturned (fst (ProbeIOCTL dioc hDevice ioctlCode s)) = n
       \<and> snd (ProbeIOCTL dioc hDevice ioctlCode s) = s'"
  using assms
  by (simp add: ProbeIOCTL_eq probe_result_fields probe_result_Valid)

theorem ProbeIOCTL_classifier_witness:
  "Valid (fst (ProbeIOCTL (\<lambda>h c b n u. ((True, None, 8), u)) 0 0x00070000 ()))
   \<and> Valid (fst (ProbeIOCTL
        (\<lambda>h c b n u. ((False, Some (Errno ERROR_INSUFFICIENT_BUFFER), 0), u)) 0 0x00070000 ()))
   \<and> \<not> Valid (fst (ProbeIOCTL
        (\<lambda>h c b n u. ((False, Some (Errno ERROR_INVALID_FUNCTION), 0), u)) 0 0x00070000 ()))
   \<and> Valid (fst (ProbeIOCTL
        (\<lambda>h c b n u. ((False, Some (Errno 31), 0), u)) 0 0x00070000 ()))"
  using
    ProbeIOCTL_classifier [of "\<lambda>h c b n u. ((True, None, 8), u)" 0 "0x00070000" "()" True None 8 "()"]
    ProbeIOCTL_classifier [of "\<lambda>h c b n u. ((False, Some (Errno ERROR_INSUFFICIENT_BUFFER), 0), u)"
      0 "0x00070000" "()" False "Some (Errno ERROR_INSUFFICIENT_BUFFER)" 0 "()"]
    ProbeIOCTL_classifier [of "\<lambda>h c b n u. ((False, Some (Errno ERROR_INVALID_FUNCTION), 0), u)"
      0 "0x00070000" "()" False "Some (Errno ERROR_INVALID_FUNCTION)" 0 "()"]
    ProbeIOCTL_classifier [of "\<lambda>h c b n u. ((False, Some (Errno 31), 0), u)"
      0 "0x00070000" "()" False "Some (Errno 31)" 0 "()"]
  by simp

text \<open>
  C9 (errors that are no \<open>Errno\<close>). When the device-control call fails with an error
  value that is not a \<open>syscall.Errno\<close>, the type assertion fails, no branch assigns
  \<open>Valid\<close>, and it keeps its zero value \<open>False\<close>: the code is not classified as
  recognized. The default of the switch applies to \<open>Errno\<close> values only.
\<close>

theorem ProbeIOCTL_non_Errno:
  assumes "dioc hDevice ioctlCode (replicate 16 0) 256 s = ((ok, Some (OtherError msg), n), s')"
  shows "\<not> Valid (fst (ProbeIOCTL dioc hDevice ioctlCode s))
       \<and> ErrorCode (fst (ProbeIOCTL dioc hDevice ioctlCode s)) = Some (OtherError msg)"
  using assms
  by (simp add: ProbeIOCTL_eq probe_result_fields probe_result_Valid)

theorem ProbeIOCTL_non_Errno_witness:
  "ProbeIOCTL (\<lambda>h c b n u. ((False, Some (OtherError ''device gone''), 0), u)) 0 0x00070000 ()
     = (\<lparr>Code = 0x00070000, Valid = False, ErrorCode = Some (OtherError ''device gone''),
         BytesReturned = 0\<rparr>, ())
   \<and> \<not> Valid (fst (ProbeIOCTL
         (\<lambda>h c b n u. ((False, Some (OtherError ''device gone''), 0), u)) 0 0x00070000 ()))"
proof -
  have "ProbeIOCTL (\<lambda>h c b n u. ((False, Some (OtherError ''device gone''), 0), u)) 0 0x00070000 ()
     = (\<lparr>Code = 0x00070000, Valid = False, ErrorCode = Some (OtherError ''device gone''),
         BytesReturned = 0\<rparr>, ())"
    by (simp add: ProbeIOCTL_def)
  then show ?thesis
    using ProbeIOCTL_non_Errno [of "\<lambda>h c b n u. ((False, Some (OtherError ''device gone''), 0), u)"
        0 "0x00070000" "()" False "''device gone''" 0 "()"]
    by simp
qed

section \<open>Properties of the range scan\<close>

lemma logged_eq:
  "logged dioc hDevice code inBuf outBufSize (s, log) =
     (fst (dioc hDevice code inBuf outBufSize s),
      (snd (dioc hDevice code inBuf outBufSize s),
       log @ [(code, fst (dioc hDevice code inBuf outBufSize s))]))"
  by (simp add: logged_def split: prod.splits)

lemma ProbeIOCTL_logged:
  "ProbeIOCTL (logged dioc) hDevice code (s, log) =
     (probe_result (code, fst (dioc hDevice code (replicate 16 0) 256 s)),
      (snd (dioc hDevice code (replicate 16 0) 256 s),
       log @ [(code, fst (dioc hDevice code (replicate 16 0) 256 s))]))"
  by (simp add: ProbeIOCTL_eq logged_eq)

text \<open>Recording the calls does not change what a probe returns.\<close>

lemma ProbeIOCTL_unlogged:
  "ProbeIOCTL dioc hDevice code (fst sl) = apsnd fst (ProbeIOCTL (logged dioc) hDevice code sl)"
  by (cases sl) (simp add: ProbeIOCTL_logged, simp add: ProbeIOCTL_eq)

lemma scan_step_logged:
  "scan_step (logged dioc) hDevice code (results, (s, log)) =
     (let e = (code, fst (dioc hDevice code (replicate 16 0) 256 s))
      in (if recognized e then results @ [probe_result e] else results,
          (snd (dioc hDevice code (replicate 16 0) 256 s), log @ [e])))"
  by (simp add: scan_step_def ProbeIOCTL_logged recognized_def Let_def)

lemma scan_step_unlogged:
  "scan_step dioc hDevice code (apsnd fst acc) = apsnd fst (scan_step (logged dioc) hDevice code acc)"
proof -
  obtain results s log where acc: "acc = (results, (s, log))"
    by (metis surj_pair)
  show ?thesis
    unfolding acc
    by (simp add: scan_step_logged Let_def) (simp add: scan_step_def ProbeIOCTL_eq recognized_def)
qed

lemma scan_fold_unlogged:
  "fold (scan_step dioc hDevice) codes (apsnd fst acc)
     = apsnd fst (fold (scan_step (logged dioc) hDevice) codes acc)"
  by (induction codes arbitrary: acc) (simp_all add: scan_step_unlogged)

lemma scan_fold_logged:
  "\<exists>B s'. fold (scan_step (logged dioc) hDevice) codes (results, (s, log))
            = (results @ map probe_result (filter recognized B), (s', log @ B))
          \<and> map fst B = codes"
proof (induction codes arbitrary: results s log)
  case Nil
  show ?case by simp
next
  case (Cons code codes)
  define e where "e = (code, fst (dioc hDevice code (replicate 16 0) 256 s))"
  define s1 where "s1 = snd (dioc hDevice code (replicate 16 0) 256 s)"
  define results1 where "results1 = (if recognized e then results @ [probe_result e] else results)"
  have step: "scan_step (logged dioc) hDevice code (results, (s, log)) = (results1, (s1, log @ [e]))"
    by (simp add: scan_step_logged e_def s1_def results1_def Let_def)
  from Cons.IH [of results1 s1 "log @ [e]"]
  obtain B s' where B:
    "fold (scan_step (logged dioc) hDevice) codes (results1, (s1, log @ [e]))
       = (results1 @ map probe_result (filter recognized B), (s', (log @ [e]) @ B))"
    "map fst B = codes"
    by blast
  have "fold (scan_step (logged dioc) hDevice) (code # codes) (results, (s, log))
       = (results @ map probe_result (filter recognized (e # B)), (s', log @ (e # B)))"
    using B(1) by (simp add: step results1_def)
  moreover have "map fst (e # B) = code # codes"
    using B(2) by (simp add: e_def)
  ultimately show ?case
    by (intro exI [of _ "e # B"] exI [of _ s'] conjI)
qed

text \<open>
  For an upper end below \<open>0xFFFFFFFF\<close> the scan returns; it has called the device once
  for every code from the start to the end, in ascending order, and its result is the
  list of the valid probe results in that order.
\<close>

lemma ScanIOCTLRange_probes_range:
  assumes "endCode < 0xFFFFFFFF"
  shows "\<exists>B s'. ScanIOCTLRange (logged dioc) hDevice startCode endCode (s, [])
                  = Some (map probe_result (filter recognized B), (s', B))
          \<and> map fst B = map word_of_nat [unat startCode ..< Suc (unat endCode)]
          \<and> ScanIOCTLRange dioc hDevice startCode endCode s
                  = Some (map probe_result (filter recognized B), s')"
proof -
  let ?codes = "map word_of_nat [unat startCode ..< Suc (unat endCode)] :: 32 word list"
  obtain B s' where B:
    "fold (scan_step (logged dioc) hDevice) ?codes ([], (s, []))
       = ([] @ map probe_result (filter recognized B), (s', [] @ B))"
    "map fst B = ?codes"
    using scan_fold_logged [of dioc hDevice ?codes "[]" s "[]"] by blast
  have plain: "fold (scan_step dioc hDevice) ?codes ([], s)
       = (map probe_result (filter recognized B), s')"
    using scan_fold_unlogged [of dioc hDevice ?codes "([], (s, []))"] B(1) by simp
  have "ScanIOCTLRange (logged dioc) hDevice startCode endCode (s, [])
       = Some (map probe_result (filter recognized B), (s', B))"
    using B(1) by (simp add: ScanIOCTLRange_def for_uint32_returns [OF assms])
  moreover have "ScanIOCTLRange dioc hDevice startCode endCode s
       = Some (map probe_result (filter recognized B), s')"
    using plain by (simp add: ScanIOCTLRange_def for_uint32_returns [OF assms])
  ultimately show ?thesis
    using B(2) by blast
qed

text \<open>
  C5 (exhaustive range scan), at the input where the code departs from it. With
  \<open>startCode = endCode = 0xFFFFFFFF\<close> the range is not empty, and the claim promises a
  returned list of results. The loop condition \<open>code <= endCode\<close> then holds for every
  \<open>uint32\<close> value and \<open>code++\<close> wraps to 0, so \<open>ScanIOCTLRange\<close> does not return,
  whatever the device answers.
\<close>

theorem ScanIOCTLRange_full_range_hangs:
  "(0xFFFFFFFF :: 32 word) \<le> 0xFFFFFFFF
   \<and> ScanIOCTLRange dioc hDevice 0xFFFFFFFF 0xFFFFFFFF s = None"
  by (simp add: ScanIOCTLRange_def for_uint32_never_returns)

text \<open>
  C10 (termination of the range scan). For \<open>startCode \<le> endCode < 0xFFFFFFFF\<close> the
  scan returns, after exactly \<open>endCode - startCode + 1\<close> calls of the device. For
  \<open>endCode = 0xFFFFFFFF\<close> the counter never exceeds the end (every \<open>uint32\<close> is at
  most \<open>0xFFFFFFFF\<close>, and \<open>0xFFFFFFFF + 1\<close> wraps to 0), and the scan does not return.
\<close>

theorem ScanIOCTLRange_termination:
  "(startCode \<le> endCode \<and> endCode < 0xFFFFFFFF \<longrightarrow>
      (\<exists>results s' log.
          ScanIOCTLRange (logged dioc) hDevice startCode endCode (s, []) = Some (results, (s', log))
        \<and> ScanIOCTLRange dioc hDevice startCode endCode s = Some (results, s')
        \<and> length log = unat endCode - unat startCode + 1))
   \<and> (endCode = 0xFFFFFFFF \<longrightarrow>
        ScanIOCTLRange dioc hDevice startCode endCode s = None
      \<and> ScanIOCTLRange (logged dioc) hDevice startCode endCode (s, []) = None
      \<and> (\<forall>code :: 32 word. code \<le> endCode) \<and> endCode + 1 = 0)"
proof (intro conjI impI)
  assume range: "startCode \<le> endCode \<and> endCode < 0xFFFFFFFF"
  then obtain B s' where B:
    "ScanIOCTLRange (logged dioc) hDevice startCode endCode (s, [])
       = Some (map probe_result (filter recognized B), (s', B))"
    "map fst B = map word_of_nat [unat startCode ..< Suc (unat endCode)]"
    "ScanIOCTLRange dioc hDevice startCode endCode s
       = Some (map probe_result (filter recognized B), s')"
    using ScanIOCTLRange_probes_range [of endCode dioc hDevice startCode s] by blast
  from B(2) have "length (map fst B) = length [unat startCode ..< Suc (unat endCode)]"
    by simp
  moreover from range have "unat startCode \<le> unat endCode"
    by (simp add: word_le_nat_alt)
  ultimately have "length B = unat endCode - unat startCode + 1"
    by simp
  with B(1,3) show "\<exists>results s' log.
          ScanIOCTLRange (logged dioc) hDevice startCode endCode (s, []) = Some (results, (s', log))
        \<and> ScanIOCTLRange dioc hDevice startCode endCode s = Some (results, s')
        \<and> length log = unat endCode - unat startCode + 1"
    by blast
next
  assume "endCode = 0xFFFFFFFF"
  then show "ScanIOCTLRange dioc hDevice startCode endCode s = None"
    by (simp add: ScanIOCTLRange_def for_uint32_never_returns)
next
  assume "endCode = 0xFFFFFFFF"
  then show "ScanIOCTLRange (logged dioc) hDevice startCode endCode (s, []) = None"
    by (simp add: ScanIOCTLRange_def for_uint32_never_returns)
next
  assume "endCode = 0xFFFFFFFF"
  then have "endCode = - 1"
    by simp
  then show "\<forall>code :: 32 word. code \<le> endCode"
    by simp
next
  assume "endCode = 0xFFFFFFFF"
  then show "endCode + 1 = 0"
    by simp
qed

theorem ScanIOCTLRange_termination_witness:
  "(0x00070000 :: 32 word) \<le> 0x00070003 \<and> (0x00070003 :: 32 word) < 0xFFFFFFFF
   \<and> (\<exists>results s' log.
          ScanIOCTLRange (logged (\<lambda>h c b n u. ((False, Some (Errno ERROR_INVALID_FUNCTION), 0), u)))
            0 0x00070000 0x00070003 ((), []) = Some (results, (s', log))
        \<and> length log = 4)
   \<and> ScanIOCTLRange (\<lambda>h c b n u. ((False, Some (Errno ERROR_INVALID_FUNCTION), 0), u))
        0 0x00070000 0xFFFFFFFF () = None"
proof -
  let ?dev = "(\<lambda>h c b n u. ((False, Some (Errno ERROR_INVALID_FUNCTION), 0), u))
      :: unit device_control"
  have "unat (0x00070003 :: 32 word) - unat (0x00070000 :: 32 word) + 1 = 4"
    by simp
  then show ?thesis
    using ScanIOCTLRange_termination [of "0x00070000" "0x00070003" ?dev 0 "()"]
      ScanIOCTLRange_termination [of "0x00070000" "0xFFFFFFFF" ?dev 0 "()"]
    by simp blast
qed

section \<open>Properties of the targeted scan\<close>

subsection \<open>The loops over access levels and methods\<close>

lemma answered_by_logged_entry:
  "answered_by dioc hDevice (code, fst (dioc hDevice code (replicate 16 0) 256 s))"
  unfolding answered_by_def by auto

lemma probe_accessLevels_logged:
  "\<exists>found B s'.
      probe_accessLevels (logged dioc) hDevice deviceType function method levels (results, (s, log))
        = (found, results @ map probe_result (filter recognized B), (s', log @ B))
    \<and> prefix (map fst B) (map (CTL_CODE deviceType function method) levels)
    \<and> (\<forall>e \<in> set (butlast B). \<not> recognized e)
    \<and> (found \<longrightarrow> B \<noteq> [] \<and> recognized (last B))
    \<and> (\<not> found \<longrightarrow> map fst B = map (CTL_CODE deviceType function method) levels
                      \<and> (\<forall>e \<in> set B. \<not> recognized e))
    \<and> (\<forall>e \<in> set B. answered_by dioc hDevice e)"
proof (induction levels arbitrary: results s log)
  case Nil
  show ?case
    by (intro exI [of _ False] exI [of _ "[]"] exI [of _ s]) simp
next
  case (Cons access levels)
  define code where "code = CTL_CODE deviceType function method access"
  define e where "e = (code, fst (dioc hDevice code (replicate 16 0) 256 s))"
  define s1 where "s1 = snd (dioc hDevice code (replicate 16 0) 256 s)"
  have probe: "ProbeIOCTL (logged dioc) hDevice code (s, log) = (probe_result e, (s1, log @ [e]))"
    by (simp add: ProbeIOCTL_logged e_def s1_def)
  have ans: "answered_by dioc hDevice e"
    unfolding e_def by (rule answered_by_logged_entry)
  show ?case
  proof (cases "recognized e")
    case True
    then have "probe_accessLevels (logged dioc) hDevice deviceType function method
        (access # levels) (results, (s, log))
      = (True, results @ map probe_result (filter recognized [e]), (s1, log @ [e]))"
      using probe by (simp add: code_def [symmetric] recognized_def)
    moreover have "prefix (map fst [e]) (map (CTL_CODE deviceType function method) (access # levels))"
      by (simp add: e_def code_def)
    ultimately show ?thesis
      using True ans by (intro exI [of _ True] exI [of _ "[e]"] exI [of _ s1]) simp
  next
    case False
    from Cons.IH [of results s1 "log @ [e]"]
    obtain found B s' where IH:
      "probe_accessLevels (logged dioc) hDevice deviceType function method levels
          (results, (s1, log @ [e]))
        = (found, results @ map probe_result (filter recognized B), (s', (log @ [e]) @ B))"
      "prefix (map fst B) (map (CTL_CODE deviceType function method) levels)"
      "\<forall>e \<in> set (butlast B). \<not> recognized e"
      "found \<longrightarrow> B \<noteq> [] \<and> recognized (last B)"
      "\<not> found \<longrightarrow> map fst B = map (CTL_CODE deviceType function method) levels
                      \<and> (\<forall>e \<in> set B. \<not> recognized e)"
      "\<forall>e \<in> set B. answered_by dioc hDevice e"
      by blast
    have run: "probe_accessLevels (logged dioc) hDevice deviceType function method
        (access # levels) (results, (s, log))
      = (found, results @ map probe_result (filter recognized (e # B)), (s', log @ (e # B)))"
      using probe False IH(1) by (simp add: code_def [symmetric] recognized_def)
    have pre: "prefix (map fst (e # B)) (map (CTL_CODE deviceType function method) (access # levels))"
      using IH(2) by (simp add: e_def code_def)
    have quiet: "\<forall>e' \<in> set (butlast (e # B)). \<not> recognized e'"
      using IH(3) False by auto
    have hit: "found \<longrightarrow> e # B \<noteq> [] \<and> recognized (last (e # B))"
      using IH(4) by auto
    have miss: "\<not> found \<longrightarrow>
        map fst (e # B) = map (CTL_CODE deviceType function method) (access # levels)
        \<and> (\<forall>e' \<in> set (e # B). \<not> recognized e')"
      using IH(5) False by (auto simp add: e_def code_def)
    have answered: "\<forall>e' \<in> set (e # B). answered_by dioc hDevice e'"
      using IH(6) ans by auto
    from run pre quiet hit miss answered show ?thesis
      by (intro exI [of _ found] exI [of _ "e # B"] exI [of _ s'] conjI)
  qed
qed

lemma probe_accessLevels_unlogged:
  "probe_accessLevels dioc hDevice deviceType function method levels (apsnd fst acc)
     = apsnd (apsnd fst)
         (probe_accessLevels (logged dioc) hDevice deviceType function method levels acc)"
proof (induction levels arbitrary: acc)
  case Nil
  show ?case by (cases acc) auto
next
  case (Cons access levels)
  obtain results s log where acc: "acc = (results, (s, log))"
    by (metis surj_pair)
  let ?code = "CTL_CODE deviceType function method access"
  let ?out = "fst (dioc hDevice ?code (replicate 16 0) 256 s)"
  let ?s1 = "snd (dioc hDevice ?code (replicate 16 0) 256 s)"
  have "probe_accessLevels dioc hDevice deviceType function method levels
          (apsnd fst (results, (?s1, log @ [(?code, ?out)])))
      = apsnd (apsnd fst)
          (probe_accessLevels (logged dioc) hDevice deviceType function method levels
            (results, (?s1, log @ [(?code, ?out)])))"
    by (rule Cons.IH)
  then show ?case
    unfolding acc by (simp add: ProbeIOCTL_logged Let_def) (simp add: ProbeIOCTL_eq)
qed

lemma early_exit_block_Nil: "early_exit_block [] []"
  by (simp add: early_exit_block_def)

lemma early_exit_block_hit:
  assumes "prefix (map fst B) chunk" and "\<forall>e \<in> set (butlast B). \<not> recognized e"
    and "B \<noteq> []" and "recognized (last B)"
  shows "early_exit_block (chunk @ rest) B"
  using assms by (simp add: early_exit_block_def prefix_prefix)

lemma early_exit_block_miss:
  assumes "map fst B1 = chunk" and "\<forall>e \<in> set B1. \<not> recognized e"
    and "early_exit_block rest B2"
  shows "early_exit_block (chunk @ rest) (B1 @ B2)"
proof -
  from assms(3) have B2: "prefix (map fst B2) rest" "\<forall>e \<in> set (butlast B2). \<not> recognized e"
    "map fst B2 = rest \<or> (B2 \<noteq> [] \<and> recognized (last B2))"
    by (simp_all add: early_exit_block_def)
  have "prefix (map fst (B1 @ B2)) (chunk @ rest)"
    using assms(1) B2(1) by simp
  moreover have "\<forall>e \<in> set (butlast (B1 @ B2)). \<not> recognized e"
    using assms(2) B2(2) by (auto simp add: butlast_append dest: in_set_butlastD)
  moreover have "map fst (B1 @ B2) = chunk @ rest
      \<or> (B1 @ B2 \<noteq> [] \<and> recognized (last (B1 @ B2)))"
    using assms(1) B2(3) by auto
  ultimately show ?thesis
    by (simp add: early_exit_block_def)
qed

lemma probe_methods_logged:
  "\<exists>B s'.
      probe_methods (logged dioc) hDevice deviceType function ms levels (results, (s, log))
        = (results @ map probe_result (filter recognized B), (s', log @ B))
    \<and> early_exit_block
        (concat (map (\<lambda>method. map (CTL_CODE deviceType function method) levels) ms)) B
    \<and> (\<forall>e \<in> set B. answered_by dioc hDevice e)"
proof (induction ms arbitrary: results s log)
  case Nil
  show ?case
    by (intro exI [of _ "[]"] exI [of _ s]) (simp add: early_exit_block_Nil)
next
  case (Cons m ms)
  let ?chunk = "map (CTL_CODE deviceType function m) levels"
  let ?rest = "concat (map (\<lambda>method. map (CTL_CODE deviceType function method) levels) ms)"
  obtain found B1 s1 where inner:
    "probe_accessLevels (logged dioc) hDevice deviceType function m levels (results, (s, log))
        = (found, results @ map probe_result (filter recognized B1), (s1, log @ B1))"
    "prefix (map fst B1) ?chunk"
    "\<forall>e \<in> set (butlast B1). \<not> recognized e"
    "found \<longrightarrow> B1 \<noteq> [] \<and> recognized (last B1)"
    "\<not> found \<longrightarrow> map fst B1 = ?chunk \<and> (\<forall>e \<in> set B1. \<not> recognized e)"
    "\<forall>e \<in> set B1. answered_by dioc hDevice e"
    using probe_accessLevels_logged [of dioc hDevice deviceType "function" m levels results s log]
    by blast
  show ?case
  proof (cases found)
    case True
    with inner(1) have run:
      "probe_methods (logged dioc) hDevice deviceType function (m # ms) levels (results, (s, log))
        = (results @ map probe_result (filter recognized B1), (s1, log @ B1))"
      by simp
    have "early_exit_block (?chunk @ ?rest) B1"
      using inner(2,3,4) True by (intro early_exit_block_hit) simp_all
    then have block: "early_exit_block
        (concat (map (\<lambda>method. map (CTL_CODE deviceType function method) levels) (m # ms))) B1"
      by simp
    from run block inner(6) show ?thesis
      by (intro exI [of _ B1] exI [of _ s1] conjI)
  next
    case False
    from Cons.IH [of "results @ map probe_result (filter recognized B1)" s1 "log @ B1"]
    obtain B2 s2 where IH:
      "probe_methods (logged dioc) hDevice deviceType function ms levels
          (results @ map probe_result (filter recognized B1), (s1, log @ B1))
        = ((results @ map probe_result (filter recognized B1))
             @ map probe_result (filter recognized B2), (s2, (log @ B1) @ B2))"
      "early_exit_block ?rest B2"
      "\<forall>e \<in> set B2. answered_by dioc hDevice e"
      by blast
    from False inner(1) IH(1) have run:
      "probe_methods (logged dioc) hDevice deviceType function (m # ms) levels (results, (s, log))
        = (results @ map probe_result (filter recognized (B1 @ B2)), (s2, log @ (B1 @ B2)))"
      by simp
    have "early_exit_block (?chunk @ ?rest) (B1 @ B2)"
      using inner(5) False IH(2) by (intro early_exit_block_miss) simp_all
    then have block: "early_exit_block
        (concat (map (\<lambda>method. map (CTL_CODE deviceType function method) levels) (m # ms)))
        (B1 @ B2)"
      by simp
    have answered: "\<forall>e \<in> set (B1 @ B2). answered_by dioc hDevice e"
      using inner(6) IH(3) by auto
    from run block answered show ?thesis
      by (intro exI [of _ "B1 @ B2"] exI [of _ s2] conjI)
  qed
qed

lemma probe_methods_unlogged:
  "probe_methods dioc hDevice deviceType function ms levels (apsnd fst acc)
     = apsnd fst (probe_methods (logged dioc) hDevice deviceType function ms levels acc)"
proof (induction ms arbitrary: acc)
  case Nil
  show ?case by simp
next
  case (Cons m ms)
  obtain found acc' where inner:
    "probe_accessLevels (logged dioc) hDevice deviceType function m levels acc = (found, acc')"
    by (metis surj_pair)
  then have "probe_accessLevels dioc hDevice deviceType function m levels (apsnd fst acc)
      = (found, apsnd fst acc')"
    by (simp add: probe_accessLevels_unlogged)
  with inner show ?case
    by (cases found) (simp_all add: Cons.IH)
qed

subsection \<open>The loops over function values and ranges\<close>

lemma candidates_eq:
  "candidates deviceType function
     = concat (map (\<lambda>method. map (CTL_CODE deviceType function method) accessLevels) methods)"
  by (simp add: candidates_def methods_def accessLevels_def)

lemma discover_fold_logged:
  "\<exists>blocks s'.
      fold (\<lambda>function. probe_methods (logged dioc) hDevice deviceType function methods accessLevels)
        fs (results, (s, log))
        = (results @ map probe_result (filter recognized (concat blocks)), (s', log @ concat blocks))
    \<and> list_all2 (\<lambda>function B. early_exit_block (candidates deviceType function) B) fs blocks
    \<and> (\<forall>e \<in> set (concat blocks). answered_by dioc hDevice e)"
proof (induction fs arbitrary: results s log)
  case Nil
  show ?case
    by (intro exI [of _ "[]"] exI [of _ s]) simp
next
  case (Cons f fs)
  obtain B s1 where first:
    "probe_methods (logged dioc) hDevice deviceType f methods accessLevels (results, (s, log))
        = (results @ map probe_result (filter recognized B), (s1, log @ B))"
    "early_exit_block (candidates deviceType f) B"
    "\<forall>e \<in> set B. answered_by dioc hDevice e"
    using probe_methods_logged [of dioc hDevice deviceType f methods accessLevels results s log]
    unfolding candidates_eq by blast
  from Cons.IH [of "results @ map probe_result (filter recognized B)" s1 "log @ B"]
  obtain blocks s' where IH:
    "fold (\<lambda>function. probe_methods (logged dioc) hDevice deviceType function methods accessLevels)
        fs (results @ map probe_result (filter recognized B), (s1, log @ B))
      = ((results @ map probe_result (filter recognized B))
           @ map probe_result (filter recognized (concat blocks)), (s', (log @ B) @ concat blocks))"
    "list_all2 (\<lambda>function B. early_exit_block (candidates deviceType function) B) fs blocks"
    "\<forall>e \<in> set (concat blocks). answered_by dioc hDevice e"
    by blast
  have run:
    "fold (\<lambda>function. probe_methods (logged dioc) hDevice deviceType function methods accessLevels)
        (f # fs) (results, (s, log))
      = (results @ map probe_result (filter recognized (concat (B # blocks))),
         (s', log @ concat (B # blocks)))"
    using first(1) IH(1) by simp
  have blocks: "list_all2 (\<lambda>function B. early_exit_block (candidates deviceType function) B)
      (f # fs) (B # blocks)"
    using first(2) IH(2) by simp
  have answered: "\<forall>e \<in> set (concat (B # blocks)). answered_by dioc hDevice e"
    using first(3) IH(3) by auto
  from run blocks answered show ?case
    by (intro exI [of _ "B # blocks"] exI [of _ s'] conjI)
qed

lemma discover_fold_unlogged:
  "fold (\<lambda>function. probe_methods dioc hDevice deviceType function methods accessLevels)
      fs (apsnd fst acc)
     = apsnd fst
         (fold (\<lambda>function. probe_methods (logged dioc) hDevice deviceType function methods accessLevels)
            fs acc)"
  by (induction fs arbitrary: acc) (simp_all add: probe_methods_unlogged)

lemma for_uint32_between:
  assumes "hi < 0xFFFFFFFF" and "unat lo = a" and "Suc (unat hi) = b"
  shows "for_uint32 lo hi body acc = Some (fold body (map word_of_nat [a ..< b]) acc)"
  using for_uint32_returns [OF assms(1), of lo body acc] assms(2,3) by simp

lemma for_ranges_functionRanges:
  "for_ranges functionRanges body acc = Some (fold body target_functions acc)"
proof -
  have r1: "for_uint32 0x000 0x100 body x = Some (fold body (map word_of_nat [0x000 ..< 0x101]) x)" for x
    by (rule for_uint32_between) simp_all
  have r2: "for_uint32 0x400 0x600 body x = Some (fold body (map word_of_nat [0x400 ..< 0x601]) x)" for x
    by (rule for_uint32_between) simp_all
  have r3: "for_uint32 0x800 0x900 body x = Some (fold body (map word_of_nat [0x800 ..< 0x901]) x)" for x
    by (rule for_uint32_between) simp_all
  have r4: "for_uint32 0xF00 0xFFF body x = Some (fold body (map word_of_nat [0xF00 ..< 0x1000]) x)" for x
    by (rule for_uint32_between) simp_all
  show ?thesis
    unfolding functionRanges_def target_functions_def
    by (simp only: for_ranges.simps r1 r2 r3 r4 option.case map_append fold_append comp_apply)
qed

lemma DiscoverIOCTLsByDeviceType_blocks:
  "\<exists>blocks s'.
      DiscoverIOCTLsByDeviceType (logged dioc) hDevice deviceType (s, [])
        = Some (map probe_result (filter recognized (concat blocks)), (s', concat blocks))
    \<and> DiscoverIOCTLsByDeviceType dioc hDevice deviceType s
        = Some (map probe_result (filter recognized (concat blocks)), s')
    \<and> list_all2 (\<lambda>function B. early_exit_block (candidates deviceType function) B)
          target_functions blocks
    \<and> (\<forall>e \<in> set (concat blocks). answered_by dioc hDevice e)"
proof -
  let ?body = "\<lambda>dioc function.
      probe_methods dioc hDevice deviceType function methods accessLevels"
  obtain blocks s' where run:
    "fold (?body (logged dioc)) target_functions ([], (s, []))
       = ([] @ map probe_result (filter recognized (concat blocks)), (s', [] @ concat blocks))"
    "list_all2 (\<lambda>function B. early_exit_block (candidates deviceType function) B)
       target_functions blocks"
    "\<forall>e \<in> set (concat blocks). answered_by dioc hDevice e"
    using discover_fold_logged [of dioc hDevice deviceType target_functions "[]" s "[]"]
    by blast
  have plain: "fold (?body dioc) target_functions ([], s)
       = (map probe_result (filter recognized (concat blocks)), s')"
    using discover_fold_unlogged [of dioc hDevice deviceType target_functions "([], (s, []))"] run(1)
    by simp
  have "DiscoverIOCTLsByDeviceType (logged dioc) hDevice deviceType (s, [])
        = Some (map probe_result (filter recognized (concat blocks)), (s', concat blocks))"
    using run(1) by (simp add: DiscoverIOCTLsByDeviceType_def for_ranges_functionRanges)
  moreover have "DiscoverIOCTLsByDeviceType dioc hDevice deviceType s
        = Some (map probe_result (filter recognized (concat blocks)), s')"
    using plain by (simp add: DiscoverIOCTLsByDeviceType_def for_ranges_functionRanges)
  ultimately show ?thesis
    using run(2,3) by (intro exI [of _ blocks] exI [of _ s'] conjI)
qed

text \<open>
  C4 (targeted scan coverage and order). \<open>DiscoverIOCTLsByDeviceType\<close> returns, and
  the calls it issued are, function value by function value, a block of probes for each
  value of the four sub-ranges \<open>[0, 0x100]\<close>, \<open>[0x400, 0x600]\<close>, \<open>[0x800, 0x900]\<close>,
  \<open>[0xF00, 0xFFF]\<close>, in that order and ascending. The block of a function value probes
  the codes \<open>CTL_CODE deviceType function method access\<close> in the order of the four
  methods crossed with the four access levels, from the first on, and stops short of
  all sixteen only after a recognized probe (the early-exit rule).
\<close>

theorem DiscoverIOCTLsByDeviceType_coverage:
  "\<exists>blocks results s'.
      DiscoverIOCTLsByDeviceType (logged dioc) hDevice deviceType (s, [])
        = Some (results, (s', concat blocks))
    \<and> DiscoverIOCTLsByDeviceType dioc hDevice deviceType s = Some (results, s')
    \<and> list_all2 (\<lambda>function B. early_exit_block (candidates deviceType function) B)
          target_functions blocks"
  using DiscoverIOCTLsByDeviceType_blocks [of dioc hDevice deviceType s] by blast

subsection \<open>The early exit\<close>

lemma probe_result_Code: "Code (probe_result e) = fst e"
  by (cases e) (simp add: probe_result_fields)

lemma quiet_after_hit_append:
  "quiet_after_hit (xs @ ys) \<longleftrightarrow>
     quiet_after_hit xs \<and> quiet_after_hit ys
     \<and> (\<forall>e \<in> set xs. recognized e \<longrightarrow>
           (\<forall>e' \<in> set ys. ExtractFunction (fst e') \<noteq> ExtractFunction (fst e)))"
  by (induction xs) auto

lemma quiet_after_hit_last_only:
  assumes "\<forall>e \<in> set (butlast B). \<not> recognized e"
  shows "quiet_after_hit B"
  using assms
proof (induction B)
  case Nil
  show ?case by simp
next
  case (Cons e es)
  show ?case
  proof (cases "es = []")
    case True
    then show ?thesis by simp
  next
    case False
    with Cons.prems have "\<not> recognized e" and "\<forall>e' \<in> set (butlast es). \<not> recognized e'"
      by simp_all
    with Cons.IH show ?thesis by simp
  qed
qed

lemma quiet_after_hit_nth:
  assumes "quiet_after_hit L" and "i < j" and "j < length L" and "recognized (L ! i)"
  shows "ExtractFunction (fst (L ! j)) \<noteq> ExtractFunction (fst (L ! i))"
  using assms
proof (induction L arbitrary: i j)
  case Nil
  then show ?case by simp
next
  case (Cons e es)
  show ?case
  proof (cases i)
    case 0
    with Cons.prems obtain j' where j: "j = Suc j'" "j' < length es"
      by (cases j) auto
    then have "es ! j' \<in> set es"
      by simp
    with Cons.prems 0 j show ?thesis
      by auto
  next
    case (Suc i')
    with Cons.prems obtain j' where j: "j = Suc j'" "i' < j'" "j' < length es"
      by (cases j) auto
    with Cons.prems Suc Cons.IH [of i' j'] show ?thesis
      by simp
  qed
qed

lemma quiet_after_hit_distinct:
  assumes "quiet_after_hit L"
  shows "distinct (map (\<lambda>e. ExtractFunction (fst e)) (filter recognized L))"
  using assms by (induction L) auto

lemma distinct_map_filter_le_1:
  assumes "distinct (map g xs)"
  shows "length (filter (\<lambda>x. g x = v) xs) \<le> 1"
  using assms
proof (induction xs)
  case Nil
  show ?case by simp
next
  case (Cons x xs)
  show ?case
  proof (cases "g x = v")
    case True
    with Cons.prems have "\<forall>y \<in> set xs. g y \<noteq> v"
      by (auto simp add: image_iff)
    then have "filter (\<lambda>x. g x = v) xs = []"
      by (simp add: filter_empty_conv)
    with True show ?thesis by simp
  next
    case False
    with Cons show ?thesis by simp
  qed
qed

lemma filter_nonempty_length:
  assumes "x \<in> set xs" and "P x"
  shows "1 \<le> length (filter P xs)"
proof -
  from assms have "x \<in> set (filter P xs)"
    by simp
  then show ?thesis
    by (cases "filter P xs") simp_all
qed

lemma candidates_ExtractFunction:
  assumes "function \<le> 0xFFF" and "code \<in> set (candidates deviceType function)"
  shows "ExtractFunction code = function"
  using assms
  by (auto simp add: candidates_def ExtractFunction_CTL_CODE in_range_12)

lemma early_exit_block_functions:
  assumes "early_exit_block (candidates deviceType function) B" and "function \<le> 0xFFF"
    and "e \<in> set B"
  shows "ExtractFunction (fst e) = function"
proof -
  from assms(1) have "prefix (map fst B) (candidates deviceType function)"
    by (simp add: early_exit_block_def)
  then have "set (map fst B) \<subseteq> set (candidates deviceType function)"
    by (rule set_mono_prefix)
  with assms(3) have "fst e \<in> set (candidates deviceType function)"
    by auto
  with assms(2) show ?thesis
    by (rule candidates_ExtractFunction)
qed

lemma blocks_quiet:
  assumes "list_all2 (\<lambda>function B. early_exit_block (candidates deviceType function) B) fs blocks"
    and "distinct fs" and "\<forall>f \<in> set fs. f \<le> 0xFFF"
  shows "quiet_after_hit (concat blocks)
       \<and> (\<forall>e \<in> set (concat blocks). ExtractFunction (fst e) \<in> set fs)"
  using assms
proof (induction rule: list_all2_induct)
  case Nil
  show ?case by simp
next
  case (Cons f fs B blocks)
  then have IH: "quiet_after_hit (concat blocks)"
    "\<forall>e \<in> set (concat blocks). ExtractFunction (fst e) \<in> set fs"
    by simp_all
  from Cons have f: "f \<le> 0xFFF" "f \<notin> set fs"
    by simp_all
  have own: "\<forall>e \<in> set B. ExtractFunction (fst e) = f"
    using early_exit_block_functions [OF Cons.hyps(1) f(1)] by blast
  from Cons.hyps(1) have "quiet_after_hit B"
    by (intro quiet_after_hit_last_only) (simp add: early_exit_block_def)
  moreover have "\<forall>e \<in> set B. recognized e \<longrightarrow>
      (\<forall>e' \<in> set (concat blocks). ExtractFunction (fst e') \<noteq> ExtractFunction (fst e))"
    using own IH(2) f(2) by metis
  ultimately have "quiet_after_hit (concat (B # blocks))"
    using IH(1) by (simp add: quiet_after_hit_append)
  moreover have "\<forall>e \<in> set (concat (B # blocks)). ExtractFunction (fst e) \<in> set (f # fs)"
    using own IH(2) by auto
  ultimately show ?case by blast
qed

lemma distinct_four_ranges:
  fixes a1 :: nat
  assumes "b1 \<le> a2" and "b2 \<le> a3" and "b3 \<le> a4"
    and "a1 \<le> b1" and "a2 \<le> b2" and "a3 \<le> b3"
  shows "distinct ([a1 ..< b1] @ [a2 ..< b2] @ [a3 ..< b3] @ [a4 ..< b4])"
  using assms by auto

lemma set_four_ranges:
  fixes a1 :: nat
  assumes "b1 \<le> b4" and "b2 \<le> b4" and "b3 \<le> b4"
  shows "set ([a1 ..< b1] @ [a2 ..< b2] @ [a3 ..< b3] @ [a4 ..< b4]) \<subseteq> {..< b4}"
  using assms by auto

lemma target_functions_bound:
  assumes "f \<in> set target_functions"
  shows "f \<le> 0xFFF"
proof -
  have "set ([0x000 ..< 0x101] @ [0x400 ..< 0x601] @ [0x800 ..< 0x901] @ [0xF00 ..< 0x1000])
      \<subseteq> {..< (0x1000 :: nat)}"
    by (rule set_four_ranges) simp_all
  with assms obtain n :: nat where n: "f = word_of_nat n" "n < 0x1000"
    unfolding target_functions_def set_map by blast
  then have "unat f = n"
    by (simp add: unat_of_nat)
  with n(2) show ?thesis
    by (simp add: word_le_nat_alt)
qed

lemma target_functions_distinct: "distinct target_functions"
proof -
  let ?ns = "[0x000 ..< 0x101] @ [0x400 ..< 0x601] @ [0x800 ..< 0x901] @ [0xF00 ..< (0x1000 :: nat)]"
  have d: "distinct ?ns"
    by (rule distinct_four_ranges) simp_all
  have sub: "set ?ns \<subseteq> {..< (0x1000 :: nat)}"
    by (rule set_four_ranges) simp_all
  have inj: "inj_on (word_of_nat :: nat \<Rightarrow> 32 word) (set ?ns)"
  proof (rule inj_onI)
    fix x y :: nat
    assume x: "x \<in> set ?ns" and y: "y \<in> set ?ns"
      and eq: "(word_of_nat x :: 32 word) = word_of_nat y"
    from sub x y have "x < 0x1000" "y < 0x1000"
      by blast+
    then have "unat (word_of_nat x :: 32 word) = x" "unat (word_of_nat y :: 32 word) = y"
      by (simp_all add: unat_of_nat)
    with eq show "x = y"
      by metis
  qed
  from d inj show ?thesis
    unfolding target_functions_def distinct_map by blast
qed

text \<open>
  C3 (early-exit rule). \<open>DiscoverIOCTLsByDeviceType\<close> returns, with the same results
  whether or not the calls are recorded. Its results are the valid probe results, in
  the order of the calls. After a recognized probe no later call probes a code with
  the same function value. So the result holds at most one entry per function value,
  and exactly one for each function value that has a recognized probe among the calls.
\<close>

theorem DiscoverIOCTLsByDeviceType_early_exit:
  "\<exists>results s' log.
      DiscoverIOCTLsByDeviceType (logged dioc) hDevice deviceType (s, [])
        = Some (results, (s', log))
    \<and> DiscoverIOCTLsByDeviceType dioc hDevice deviceType s = Some (results, s')
    \<and> results = map probe_result (filter recognized log)
    \<and> (\<forall>i j. i < j \<and> j < length log \<and> recognized (log ! i)
          \<longrightarrow> ExtractFunction (fst (log ! j)) \<noteq> ExtractFunction (fst (log ! i)))
    \<and> (\<forall>f. length (filter (\<lambda>r. ExtractFunction (Code r) = f) results) \<le> 1)
    \<and> (\<forall>f. (\<exists>e \<in> set log. recognized e \<and> ExtractFunction (fst e) = f)
          \<longrightarrow> length (filter (\<lambda>r. ExtractFunction (Code r) = f) results) = 1)"
proof -
  obtain blocks s' where run:
    "DiscoverIOCTLsByDeviceType (logged dioc) hDevice deviceType (s, [])
        = Some (map probe_result (filter recognized (concat blocks)), (s', concat blocks))"
    "DiscoverIOCTLsByDeviceType dioc hDevice deviceType s
        = Some (map probe_result (filter recognized (concat blocks)), s')"
    "list_all2 (\<lambda>function B. early_exit_block (candidates deviceType function) B)
          target_functions blocks"
    using DiscoverIOCTLsByDeviceType_blocks [of dioc hDevice deviceType s] by blast
  define log where "log = concat blocks"
  define results where "results = map probe_result (filter recognized log)"
  have quiet: "quiet_after_hit log"
    unfolding log_def
    using blocks_quiet [OF run(3) target_functions_distinct] target_functions_bound by blast
  have nth: "\<forall>i j. i < j \<and> j < length log \<and> recognized (log ! i)
          \<longrightarrow> ExtractFunction (fst (log ! j)) \<noteq> ExtractFunction (fst (log ! i))"
    using quiet_after_hit_nth [OF quiet] by blast
  have "map (\<lambda>r. ExtractFunction (Code r)) results
      = map (\<lambda>e. ExtractFunction (fst e)) (filter recognized log)"
    by (simp add: results_def probe_result_Code)
  then have dist: "distinct (map (\<lambda>r. ExtractFunction (Code r)) results)"
    using quiet_after_hit_distinct [OF quiet] by simp
  have most: "length (filter (\<lambda>r. ExtractFunction (Code r) = f) results) \<le> 1" for f
    using dist by (rule distinct_map_filter_le_1)
  have one: "length (filter (\<lambda>r. ExtractFunction (Code r) = f) results) = 1"
    if "\<exists>e \<in> set log. recognized e \<and> ExtractFunction (fst e) = f" for f
  proof -
    from that obtain e where e: "e \<in> set log" "recognized e" "ExtractFunction (fst e) = f"
      by blast
    then have "probe_result e \<in> set results"
      by (simp add: results_def)
    moreover from e(3) have "ExtractFunction (Code (probe_result e)) = f"
      by (simp add: probe_result_Code)
    ultimately have "1 \<le> length (filter (\<lambda>r. ExtractFunction (Code r) = f) results)"
      by (rule filter_nonempty_length)
    with most [of f] show ?thesis
      by simp
  qed
  from run(1,2) nth most one show ?thesis
    unfolding log_def [symmetric] results_def [symmetric]
    by (intro exI [of _ results] exI [of _ s'] exI [of _ log] conjI allI impI)
      (simp_all add: results_def)
qed

subsection \<open>Two devices: one that recognizes nothing, one that accepts everything\<close>

lemma blocks_all_missed:
  assumes "list_all2 (\<lambda>function B. early_exit_block (cands function) B) fs blocks"
    and "\<forall>e \<in> set (concat blocks). \<not> recognized e"
  shows "map fst (concat blocks) = concat (map cands fs)"
  using assms
proof (induction rule: list_all2_induct)
  case Nil
  show ?case by simp
next
  case (Cons f fs B blocks)
  from Cons.hyps(1) have "map fst B = cands f \<or> (B \<noteq> [] \<and> recognized (last B))"
    by (simp add: early_exit_block_def)
  moreover have "\<not> recognized (last B)" if "B \<noteq> []"
    using that Cons.prems by simp
  ultimately have "map fst B = cands f"
    by blast
  with Cons show ?case
    by simp
qed

lemma blocks_all_hit:
  assumes "list_all2 (\<lambda>function B. early_exit_block (cands function) B) fs blocks"
    and "\<forall>f \<in> set fs. cands f \<noteq> []"
    and "\<forall>e \<in> set (concat blocks). recognized e"
  shows "map fst (concat blocks) = map (\<lambda>f. hd (cands f)) fs"
  using assms
proof (induction rule: list_all2_induct)
  case Nil
  show ?case by simp
next
  case (Cons f fs B blocks)
  from Cons.hyps(1) have B: "prefix (map fst B) (cands f)"
    "\<forall>e \<in> set (butlast B). \<not> recognized e"
    "map fst B = cands f \<or> (B \<noteq> [] \<and> recognized (last B))"
    by (simp_all add: early_exit_block_def)
  from Cons.prems have "cands f \<noteq> []"
    by simp
  with B(3) have "B \<noteq> []"
    by auto
  moreover have "butlast B = []"
  proof (rule ccontr)
    assume "butlast B \<noteq> []"
    then obtain e where e: "e \<in> set (butlast B)"
      by (cases "butlast B") auto
    then have "e \<in> set B"
      by (rule in_set_butlastD)
    with Cons.prems have "recognized e"
      by simp
    with B(2) e show False
      by blast
  qed
  ultimately obtain e where e: "B = [e]"
    by (metis append_butlast_last_id append_Nil)
  with B(1) obtain rest where "cands f = fst e # rest"
    by (auto simp add: prefix_def)
  then have "hd (cands f) = fst e"
    by simp
  with Cons e show ?case
    by simp
qed

lemma candidates_first:
  "candidates deviceType function \<noteq> []"
  "hd (candidates deviceType function) = CTL_CODE deviceType function METHOD_BUFFERED FILE_ANY_ACCESS"
  by (simp_all add: candidates_def)

lemma target_functions_member:
  assumes "n < 0x101"
  shows "word_of_nat n \<in> set target_functions"
proof -
  from assms have "n \<in> set [0x000 ..< 0x101]"
    by (simp only: set_upt) simp
  then show ?thesis
    unfolding target_functions_def by (simp only: set_map set_append) blast
qed

theorem DiscoverIOCTLsByDeviceType_early_exit_witness:
  "\<exists>results s' log.
      DiscoverIOCTLsByDeviceType (logged (\<lambda>h c b n u. ((True, None, 0), u)))
        0 FILE_DEVICE_UNKNOWN ((), []) = Some (results, (s', log))
    \<and> map fst log
        = map (\<lambda>f. CTL_CODE FILE_DEVICE_UNKNOWN f METHOD_BUFFERED FILE_ANY_ACCESS) target_functions
    \<and> results = map probe_result log
    \<and> (\<exists>e \<in> set log. recognized e \<and> ExtractFunction (fst e) = 0x100)
    \<and> length (filter (\<lambda>r. ExtractFunction (Code r) = 0x100) results) = 1"
proof -
  let ?dev = "(\<lambda>h c b n u. ((True, None, 0), u)) :: unit device_control"
  obtain results s' log where inst:
    "DiscoverIOCTLsByDeviceType (logged ?dev) 0 FILE_DEVICE_UNKNOWN ((), []) = Some (results, (s', log))"
    "results = map probe_result (filter recognized log)"
    "\<forall>f. (\<exists>e \<in> set log. recognized e \<and> ExtractFunction (fst e) = f)
          \<longrightarrow> length (filter (\<lambda>r. ExtractFunction (Code r) = f) results) = 1"
    using DiscoverIOCTLsByDeviceType_early_exit [of ?dev 0 FILE_DEVICE_UNKNOWN "()"] by blast
  obtain blocks s2 where blocks:
    "DiscoverIOCTLsByDeviceType (logged ?dev) 0 FILE_DEVICE_UNKNOWN ((), [])
        = Some (map probe_result (filter recognized (concat blocks)), (s2, concat blocks))"
    "list_all2 (\<lambda>function B. early_exit_block (candidates FILE_DEVICE_UNKNOWN function) B)
          target_functions blocks"
    "\<forall>e \<in> set (concat blocks). answered_by ?dev 0 e"
    using DiscoverIOCTLsByDeviceType_blocks [of ?dev 0 FILE_DEVICE_UNKNOWN "()"] by blast
  from inst(1) blocks(1) have log: "log = concat blocks"
    by simp
  have all: "\<forall>e \<in> set log. recognized e"
  proof
    fix e assume "e \<in> set log"
    with blocks(3) log have "snd e = (True, None, 0)"
      by (auto simp add: answered_by_def)
    then have "e = (fst e, True, None, 0)"
      by (cases e) simp
    then have "recognized e = recognized (fst e, True, None, 0)"
      by simp
    then show "recognized e"
      by (simp add: recognized_def probe_result_Valid)
  qed
  then have filt: "filter recognized log = log"
    by simp
  have codes: "map fst log
      = map (\<lambda>f. CTL_CODE FILE_DEVICE_UNKNOWN f METHOD_BUFFERED FILE_ANY_ACCESS) target_functions"
    using blocks_all_hit [OF blocks(2)] all
    by (simp add: log candidates_first)
  have "(0x100 :: 32 word) \<in> set target_functions"
    using target_functions_member [of "0x100"] by simp
  then have "CTL_CODE FILE_DEVICE_UNKNOWN 0x100 METHOD_BUFFERED FILE_ANY_ACCESS \<in> set (map fst log)"
    unfolding codes by simp
  then obtain e where e: "e \<in> set log"
    "fst e = CTL_CODE FILE_DEVICE_UNKNOWN 0x100 METHOD_BUFFERED FILE_ANY_ACCESS"
    by auto
  have "ExtractFunction (fst e) = 0x100"
    unfolding e(2) by (simp add: ExtractFunction_CTL_CODE)
  with e(1) all have hit: "\<exists>e \<in> set log. recognized e \<and> ExtractFunction (fst e) = 0x100"
    by blast
  with inst(3) have "length (filter (\<lambda>r. ExtractFunction (Code r) = 0x100) results) = 1"
    by blast
  with inst(1,2) filt codes hit show ?thesis
    by (intro exI [of _ results] exI [of _ s'] exI [of _ log] conjI) simp_all
qed

theorem DiscoverIOCTLsByDeviceType_coverage_witness:
  "\<exists>blocks results s'.
      DiscoverIOCTLsByDeviceType (logged (\<lambda>h c b n u. ((False, Some (Errno ERROR_INVALID_FUNCTION), 0), u)))
        0 FILE_DEVICE_UNKNOWN ((), []) = Some (results, (s', concat blocks))
    \<and> list_all2 (\<lambda>function B. early_exit_block (candidates FILE_DEVICE_UNKNOWN function) B)
          target_functions blocks
    \<and> map fst (concat blocks) = concat (map (candidates FILE_DEVICE_UNKNOWN) target_functions)
    \<and> results = []"
proof -
  let ?dev = "(\<lambda>h c b n u. ((False, Some (Errno ERROR_INVALID_FUNCTION), 0), u)) :: unit device_control"
  obtain blocks results s' where inst:
    "DiscoverIOCTLsByDeviceType (logged ?dev) 0 FILE_DEVICE_UNKNOWN ((), [])
        = Some (results, (s', concat blocks))"
    "list_all2 (\<lambda>function B. early_exit_block (candidates FILE_DEVICE_UNKNOWN function) B)
          target_functions blocks"
    using DiscoverIOCTLsByDeviceType_coverage [of ?dev 0 FILE_DEVICE_UNKNOWN "()"] by blast
  obtain blocks2 s2 where blocks:
    "DiscoverIOCTLsByDeviceType (logged ?dev) 0 FILE_DEVICE_UNKNOWN ((), [])
        = Some (map probe_result (filter recognized (concat blocks2)), (s2, concat blocks2))"
    "\<forall>e \<in> set (concat blocks2). answered_by ?dev 0 e"
    using DiscoverIOCTLsByDeviceType_blocks [of ?dev 0 FILE_DEVICE_UNKNOWN "()"] by blast
  from inst(1) blocks(1) have same: "concat blocks = concat blocks2"
    "results = map probe_result (filter recognized (concat blocks2))"
    by simp_all
  have none: "\<forall>e \<in> set (concat blocks). \<not> recognized e"
  proof
    fix e assume "e \<in> set (concat blocks)"
    with blocks(2) same(1) have "snd e = (False, Some (Errno ERROR_INVALID_FUNCTION), 0)"
      by (auto simp add: answered_by_def)
    then have "e = (fst e, False, Some (Errno ERROR_INVALID_FUNCTION), 0)"
      by (cases e) simp
    then have "recognized e = recognized (fst e, False, Some (Errno ERROR_INVALID_FUNCTION), 0)"
      by simp
    then show "\<not> recognized e"
      by (simp add: recognized_def probe_result_Valid)
  qed
  then have "filter recognized (concat blocks) = []"
    by (simp add: filter_empty_conv)
  with same have empty: "results = []"
    by simp
  have codes: "map fst (concat blocks)
      = concat (map (candidates FILE_DEVICE_UNKNOWN) target_functions)"
    using inst(2) none by (rule blocks_all_missed)
  from inst codes empty show ?thesis
    by (intro exI [of _ blocks] exI [of _ results] exI [of _ s'] conjI)
qed

end
